theory Spec2Isabelle
  imports Complex_Main
begin

section \<open>JavaScript numbers\<close>

text \<open>
  A JavaScript number is modelled as an exact rational or one of the three special values.
  Rounding of finite results to the nearest double is not modelled; what is modelled is
  which operations leave the finite numbers (division by zero, arithmetic on infinities)
  and how comparisons treat \<open>NaN\<close>. Divisors that are zero are always the positive zero here
  (they are lengths of arrays).
\<close>

datatype jsnum = NaN | PInf | NInf | Fin rat

fun jneg :: "jsnum \<Rightarrow> jsnum" where
  "jneg NaN = NaN"
| "jneg PInf = NInf"
| "jneg NInf = PInf"
| "jneg (Fin a) = Fin (- a)"

fun jadd :: "jsnum \<Rightarrow> jsnum \<Rightarrow> jsnum" where
  "jadd NaN _ = NaN"
| "jadd _ NaN = NaN"
| "jadd PInf NInf = NaN"
| "jadd NInf PInf = NaN"
| "jadd PInf _ = PInf"
| "jadd _ PInf = PInf"
| "jadd NInf _ = NInf"
| "jadd _ NInf = NInf"
| "jadd (Fin a) (Fin b) = Fin (a + b)"

definition jsub :: "jsnum \<Rightarrow> jsnum \<Rightarrow> jsnum" where
  "jsub a b = jadd a (jneg b)"

fun jsign :: "jsnum \<Rightarrow> int" where
  "jsign NaN = 0"
| "jsign PInf = 1"
| "jsign NInf = - 1"
| "jsign (Fin a) = (if a < 0 then - 1 else if a = 0 then 0 else 1)"

definition jinf :: "int \<Rightarrow> jsnum" where
  "jinf s = (if s < 0 then NInf else if s = 0 then NaN else PInf)"

fun jmul :: "jsnum \<Rightarrow> jsnum \<Rightarrow> jsnum" where
  "jmul NaN _ = NaN"
| "jmul _ NaN = NaN"
| "jmul (Fin a) (Fin b) = Fin (a * b)"
| "jmul a b = jinf (jsign a * jsign b)"

fun jdiv :: "jsnum \<Rightarrow> jsnum \<Rightarrow> jsnum" where
  "jdiv NaN _ = NaN"
| "jdiv _ NaN = NaN"
| "jdiv (Fin a) (Fin b) = (if b = 0 then jinf (jsign (Fin a)) else Fin (a / b))"
| "jdiv (Fin a) _ = Fin 0"
| "jdiv a (Fin b) = jinf (jsign a * (if b < 0 then - 1 else 1))"
| "jdiv _ _ = NaN"

text \<open>\<open>a > b\<close> and \<open>a >= b\<close>: every comparison with \<open>NaN\<close> is false.\<close>

fun jgt :: "jsnum \<Rightarrow> jsnum \<Rightarrow> bool" where
  "jgt NaN _ = False"
| "jgt _ NaN = False"
| "jgt (Fin a) (Fin b) = (b < a)"
| "jgt PInf b = (b \<noteq> PInf)"
| "jgt NInf _ = False"
| "jgt (Fin a) b = (b = NInf)"

fun jge :: "jsnum \<Rightarrow> jsnum \<Rightarrow> bool" where
  "jge NaN _ = False"
| "jge _ NaN = False"
| "jge (Fin a) (Fin b) = (b \<le> a)"
| "jge PInf _ = True"
| "jge NInf b = (b = NInf)"
| "jge (Fin a) b = (b = NInf)"

definition jnat :: "nat \<Rightarrow> jsnum" where
  "jnat n = Fin (of_nat n)"

section \<open>The sentence classifier\<close>

text \<open>
  \<open>src/TiptapEditor.jsx\<close> is present in two listings. The first (lines 1-400) has the
  short-sentence guard and inclusive grade comparisons; the second (lines 401-813) has the
  absolute-length thresholds and strict grade comparisons. Names of the second listing
  carry the suffix \<open>_v2\<close>.
\<close>

datatype tag = Blue | Yellow | Red

definition ENABLE_BLUE :: bool where "ENABLE_BLUE = True"
definition LONG_SENTENCE_WORDS :: nat where "LONG_SENTENCE_WORDS = 15"
definition DELTA_HARD :: jsnum where "DELTA_HARD = Fin 1"
definition DELTA_VERY_HARD :: jsnum where "DELTA_VERY_HARD = Fin 3"
definition MIN_YELLOW_WORDS_FOR_GRADE :: nat where "MIN_YELLOW_WORDS_FOR_GRADE = 14"
definition MIN_RED_WORDS_FOR_GRADE :: nat where "MIN_RED_WORDS_FOR_GRADE = 18"

definition ENABLE_BLUE_v2 :: bool where "ENABLE_BLUE_v2 = False"
definition HEMI_HARD_WORDS :: nat where "HEMI_HARD_WORDS = 20"
definition HEMI_VERY_HARD_WORDS :: nat where "HEMI_VERY_HARD_WORDS = 25"

text \<open>Lines 44-53. \<open>null\<close> is \<open>None\<close>.\<close>

definition classify :: "nat \<Rightarrow> jsnum \<Rightarrow> jsnum \<Rightarrow> tag option" where
  "classify words grade target =
     (let delta = jsub grade target in
      if words < 8 then None
      else if jge delta DELTA_VERY_HARD \<and> MIN_RED_WORDS_FOR_GRADE \<le> words then Some Red
      else if jge delta DELTA_HARD \<and> MIN_YELLOW_WORDS_FOR_GRADE \<le> words then Some Yellow
      else if ENABLE_BLUE \<and> LONG_SENTENCE_WORDS \<le> words then Some Blue
      else None)"

text \<open>Lines 432-440.\<close>

definition classify_v2 :: "nat \<Rightarrow> jsnum \<Rightarrow> jsnum \<Rightarrow> tag option" where
  "classify_v2 words grade target =
     (let delta = jsub grade target in
      if HEMI_VERY_HARD_WORDS \<le> words then Some Red
      else if HEMI_HARD_WORDS \<le> words then Some Yellow
      else if jgt delta DELTA_VERY_HARD \<and> MIN_RED_WORDS_FOR_GRADE \<le> words then Some Red
      else if jgt delta DELTA_HARD \<and> MIN_YELLOW_WORDS_FOR_GRADE \<le> words then Some Yellow
      else if ENABLE_BLUE_v2 \<and> LONG_SENTENCE_WORDS \<le> words then Some Blue
      else None)"

section \<open>Strings\<close>

text \<open>
  A JavaScript string is a sequence of UTF-16 code units. It is modelled as a \<open>string\<close>
  whose characters stand for the code units of the same number, so the model covers the
  texts whose code units are below 256. The ellipsis U+2026, which the sentence pattern
  names next to \<open>.\<close>, \<open>!\<close> and \<open>?\<close>, does not occur in such a text.
\<close>

definition code :: "char \<Rightarrow> nat" where
  "code c = of_char c"

text \<open>The class \<open>\s\<close>, which is also what \<open>trim\<close> removes.\<close>

definition isSpace :: "char \<Rightarrow> bool" where
  "isSpace c = (code c \<in> {9, 10, 11, 12, 13, 32, 160})"

definition isDigit :: "char \<Rightarrow> bool" where
  "isDigit c = (48 \<le> code c \<and> code c \<le> 57)"

definition isUpperAZ :: "char \<Rightarrow> bool" where
  "isUpperAZ c = (65 \<le> code c \<and> code c \<le> 90)"

definition isLowerAZ :: "char \<Rightarrow> bool" where
  "isLowerAZ c = (97 \<le> code c \<and> code c \<le> 122)"

text \<open>The class \<open>\w\<close> and the class \<open>[\w'-]\<close> of the word pattern.\<close>

definition isWordChar :: "char \<Rightarrow> bool" where
  "isWordChar c = (isUpperAZ c \<or> isLowerAZ c \<or> isDigit c \<or> c = CHR ''_'')"

definition isTokChar :: "char \<Rightarrow> bool" where
  "isTokChar c = (isWordChar c \<or> c = CHR 0x27 \<or> c = CHR ''-'')"

definition toLowerChar :: "char \<Rightarrow> char" where
  "toLowerChar c =
     (let n = code c in
      if (65 \<le> n \<and> n \<le> 90) \<or> (192 \<le> n \<and> n \<le> 222 \<and> n \<noteq> 215)
      then char_of (n + 32) else c)"

definition toLowerCase :: "string \<Rightarrow> string" where
  "toLowerCase s = map toLowerChar s"

text \<open>
  \<open>upperFixed c\<close>: upper-casing leaves the character as it is. The characters it changes are
  the small letters, the micro sign, the sharp s and the small letters of Latin-1.
\<close>

definition upperFixed :: "char \<Rightarrow> bool" where
  "upperFixed c =
     (let n = code c in
      \<not> ((97 \<le> n \<and> n \<le> 122) \<or> n = 181 \<or> n = 223 \<or> (224 \<le> n \<and> n \<noteq> 247)))"

definition trim :: "string \<Rightarrow> string" where
  "trim s = rev (dropWhile isSpace (rev (dropWhile isSpace s)))"

text \<open>
  \<open>s.split(/[...]+/)\<close> for a character class: the pieces between the maximal runs of
  separators. A separator at either end gives an empty piece there, and the empty string
  gives one empty piece.
\<close>

lemma dropWhile_sep_shorter:
  assumes "dropWhile (\<lambda>c. \<not> sep c) s \<noteq> []"
  shows "length (dropWhile sep (dropWhile (\<lambda>c. \<not> sep c) s)) < length s"
proof -
  let ?r = "dropWhile (\<lambda>c. \<not> sep c) s"
  from assms have "sep (hd ?r)"
    using hd_dropWhile [of "\<lambda>c. \<not> sep c" s] by simp
  with assms have "length (dropWhile sep ?r) < length ?r"
    by (cases ?r) (auto simp: less_Suc_eq_le length_dropWhile_le)
  moreover have "length ?r \<le> length s"
    by (rule length_dropWhile_le)
  ultimately show ?thesis by simp
qed

function splitOn :: "(char \<Rightarrow> bool) \<Rightarrow> string \<Rightarrow> string list" where
  "splitOn sep s =
     (let rest = dropWhile (\<lambda>c. \<not> sep c) s in
      if rest = [] then [s]
      else takeWhile (\<lambda>c. \<not> sep c) s # splitOn sep (dropWhile sep rest))"
  by pat_completeness auto
termination
  by (relation "measure (\<lambda>(sep, s). length s)") (auto simp: dropWhile_sep_shorter)

declare splitOn.simps [simp del]

section \<open>readabilityUtils.js\<close>

definition isSentenceEnd :: "char \<Rightarrow> bool" where
  "isSentenceEnd c = (c \<in> set ''.!?'')"

definition wordsOf :: "string \<Rightarrow> string list" where
  "wordsOf text = filter (\<lambda>w. w \<noteq> []) (splitOn isSpace (trim text))"

definition countWords :: "string \<Rightarrow> nat" where
  "countWords text = length (wordsOf text)"

definition countSentences :: "string \<Rightarrow> nat" where
  "countSentences text =
     (let n = length (filter (\<lambda>s. 0 < length (trim s)) (splitOn isSentenceEnd text))
      in if n = 0 then 1 else n)"

definition isVowelY :: "char \<Rightarrow> bool" where
  "isVowelY c = (c \<in> set ''aeiouy'')"

definition notLVowel :: "char \<Rightarrow> bool" where
  "notLVowel c = (c \<notin> set ''laeiouy'')"

text \<open>
  \<open>word.replace(/(?:[^laeiouy]es|ed|[^laeiouy]e)$/, '')\<close>. The leftmost match wins, so a
  three-character ending is removed before a two-character one is looked at.
\<close>

definition stripSuffix :: "string \<Rightarrow> string" where
  "stripSuffix w =
     (case rev w of
        c1 # c2 # c3 # r \<Rightarrow>
          if notLVowel c3 \<and> c2 = CHR ''e'' \<and> c1 = CHR ''s'' then rev r
          else if (c2 = CHR ''e'' \<and> c1 = CHR ''d'') \<or> (notLVowel c2 \<and> c1 = CHR ''e'')
          then rev (c3 # r) else w
      | [c1, c2] \<Rightarrow>
          if (c2 = CHR ''e'' \<and> c1 = CHR ''d'') \<or> (notLVowel c2 \<and> c1 = CHR ''e'')
          then [] else w
      | _ \<Rightarrow> w)"

definition stripLeadingY :: "string \<Rightarrow> string" where
  "stripLeadingY w = (case w of c # r \<Rightarrow> if c = CHR ''y'' then r else w | [] \<Rightarrow> w)"

text \<open>The number of matches of \<open>/[aeiouy]{1,2}/g\<close>.\<close>

fun vowelGroups :: "string \<Rightarrow> nat" where
  "vowelGroups [] = 0"
| "vowelGroups [c] = (if isVowelY c then 1 else 0)"
| "vowelGroups (c # d # cs) =
     (if isVowelY c then
        (if isVowelY d then Suc (vowelGroups cs) else Suc (vowelGroups (d # cs)))
      else vowelGroups (d # cs))"

definition countSyllables :: "string \<Rightarrow> nat" where
  "countSyllables word0 =
     (let word = toLowerCase word0 in
      if length word \<le> 3 then 1
      else let n = vowelGroups (stripLeadingY (stripSuffix word))
           in if n = 0 then 1 else n)"

text \<open>
  \<open>parseFloat(x.toFixed(1))\<close>. The code rounds the double \<open>x\<close>, which differs from the exact
  value \<open>q\<close> of the formula by the rounding errors of the five operations and of the
  constants, far less than \<open>tieMargin q\<close>. Where \<open>q\<close> is farther than that from the midpoint
  of two neighbouring tenths, the double lies on the same side of the midpoint and the
  result is the nearer tenth. Where \<open>q\<close> is at the midpoint or that close to it (the grade
  -1.45 of six one-syllable words is at a midpoint), the side on which the double lies is
  not computed by the model: it is the argument \<open>up\<close>, true for the upper tenth.
\<close>

definition tieMargin :: "rat \<Rightarrow> rat" where
  "tieMargin q = (\<bar>q\<bar> + 1000) / 2 ^ 40"

definition toTenths :: "bool \<Rightarrow> rat \<Rightarrow> int" where
  "toTenths up q =
     (let lo = \<lfloor>q * 10\<rfloor>; mid = (of_int lo + 1 / 2) / 10 in
      if q + tieMargin q < mid then lo
      else if mid + tieMargin q < q then lo + 1
      else if up then lo + 1 else lo)"

fun toFixed1 :: "bool \<Rightarrow> jsnum \<Rightarrow> jsnum" where
  "toFixed1 up (Fin q) =
     (if 10 ^ 21 \<le> \<bar>q\<bar> then Fin q else Fin (of_int (toTenths up q) / 10))"
| "toFixed1 up x = x"

definition sumSyllables :: "string list \<Rightarrow> nat" where
  "sumSyllables ws = foldl (\<lambda>acc word. acc + countSyllables word) 0 ws"

definition calculateFleschKincaidGrade :: "bool \<Rightarrow> string \<Rightarrow> jsnum" where
  "calculateFleschKincaidGrade up text =
     (let ws = wordsOf text;
          sentences = countSentences text;
          syllables = sumSyllables ws;
          wordCount = (if length ws = 0 then 1 else length ws);
          grade = jsub (jadd (jmul (Fin (39 / 100)) (jdiv (jnat wordCount) (jnat sentences)))
                             (jmul (Fin (118 / 10)) (jdiv (jnat syllables) (jnat wordCount))))
                       (Fin (1559 / 100))
      in toFixed1 up grade)"

definition calculateFleschReadingEase :: "bool \<Rightarrow> string \<Rightarrow> jsnum" where
  "calculateFleschReadingEase up text =
     (let ws = wordsOf text;
          sentences = countSentences text;
          syllables = sumSyllables ws;
          wordCount = (if length ws = 0 then 1 else length ws);
          ease = jsub (jsub (Fin (206835 / 1000))
                            (jmul (Fin (1015 / 1000)) (jdiv (jnat wordCount) (jnat sentences))))
                      (jmul (Fin (846 / 10)) (jdiv (jnat syllables) (jnat wordCount)))
      in toFixed1 up ease)"

record metrics =
  m_text :: string
  m_wordCount :: nat
  m_syllableCount :: nat
  m_grade :: jsnum

text \<open>Lines 40-57. The syllables are summed over the unfiltered pieces of the split.\<close>

definition analyzeSentence :: "bool \<Rightarrow> string \<Rightarrow> metrics" where
  "analyzeSentence up sentence =
     (let wordCount = countWords sentence;
          syllableCount = sumSyllables (splitOn isSpace (trim sentence));
          sentenceCount = 1;
          grade = jsub (jadd (jmul (Fin (39 / 100)) (jdiv (jnat wordCount) (jnat sentenceCount)))
                             (jmul (Fin (118 / 10)) (jdiv (jnat syllableCount) (jnat wordCount))))
                       (Fin (1559 / 100))
      in \<lparr>m_text = trim sentence, m_wordCount = wordCount,
          m_syllableCount = syllableCount, m_grade = toFixed1 up grade\<rparr>)"

section \<open>Word flagging\<close>

text \<open>\<open>HARD_SYLLABLES_BY_TARGET\<close>, read at the target grade, and the default \<open>?? 3\<close>.\<close>

definition HARD_SYLLABLES_BY_TARGET :: "jsnum \<Rightarrow> nat option" where
  "HARD_SYLLABLES_BY_TARGET = [Fin 6 \<mapsto> 3, Fin 8 \<mapsto> 4, Fin 10 \<mapsto> 5]"

definition thresh :: "jsnum \<Rightarrow> nat" where
  "thresh targetGrade = (case HARD_SYLLABLES_BY_TARGET targetGrade of Some n \<Rightarrow> n | None \<Rightarrow> 3)"

definition isAllCaps :: "string \<Rightarrow> bool" where
  "isAllCaps w = (1 < length w \<and> list_all upperFixed w)"

definition asciiLower :: "char \<Rightarrow> char" where
  "asciiLower c = (if isUpperAZ c then char_of (code c + 32) else c)"

definition startsWithCI :: "string \<Rightarrow> string \<Rightarrow> bool" where
  "startsWithCI p w = (take (length p) (map asciiLower w) = p)"

definition isUrlLike :: "string \<Rightarrow> bool" where
  "isUrlLike w = (startsWithCI ''http://'' w \<or> startsWithCI ''https://'' w \<or> startsWithCI ''www.'' w)"

definition isNumberLike :: "string \<Rightarrow> bool" where
  "isNumberLike w = (case w of c # _ \<Rightarrow> isDigit c | [] \<Rightarrow> False)"

definition isLikelyProperNoun :: "string \<Rightarrow> bool" where
  "isLikelyProperNoun w =
     ((case w of c # d # _ \<Rightarrow> isUpperAZ c \<and> isLowerAZ d | _ \<Rightarrow> False) \<and> \<not> isAllCaps w)"

text \<open>\<open>wOrig.replace(/^'+|'+$/g, "")\<close>.\<close>

definition isApos :: "char \<Rightarrow> bool" where
  "isApos c = (c = CHR 0x27)"

definition stripApos :: "string \<Rightarrow> string" where
  "stripApos wOrig = rev (dropWhile isApos (rev (dropWhile isApos wOrig)))"

subsection \<open>Reading a property of an object literal\<close>

text \<open>
  \<open>obj[key]\<close> and \<open>key in obj\<close> on an object literal find the literal's own properties
  and, for any other key, the properties it inherits from \<open>Object.prototype\<close>. These are
  the inherited keys; their values are functions, or an object for \<open>__proto__\<close>.
\<close>

definition Object_prototype_keys :: "string list" where
  "Object_prototype_keys =
     [''constructor'', ''hasOwnProperty'', ''isPrototypeOf'', ''propertyIsEnumerable'',
      ''toLocaleString'', ''toString'', ''valueOf'', ''__proto__'', ''__defineGetter__'',
      ''__defineSetter__'', ''__lookupGetter__'', ''__lookupSetter__'']"

datatype error = TypeError

text \<open>A property value: a string of the literal, or an inherited function or object.\<close>

datatype jsprop = Str string | Obj

text \<open>
  \<open>SIMPLE_WORD_MAP\<close> is imported from the module \<open>./simpleWordMap\<close>. Its content
  is an argument of the model: \<open>own\<close> gives the literal's own properties, words mapped to
  simpler words. \<open>getProp own key\<close> is \<open>SIMPLE_WORD_MAP[key]\<close>, \<open>None\<close> for \<open>undefined\<close>.
\<close>

definition getProp :: "(string \<Rightarrow> string option) \<Rightarrow> string \<Rightarrow> jsprop option" where
  "getProp own key =
     (case own key of
        Some v \<Rightarrow> Some (Str v)
      | None \<Rightarrow> if key \<in> set Object_prototype_keys then Some Obj else None)"

fun truthy :: "jsprop \<Rightarrow> bool" where
  "truthy (Str v) = (v \<noteq> [])"
| "truthy Obj = True"

text \<open>
  \<open>smartCase\<close>, lines 62-67 and 442-447. The result is kept as the word and the case
  adaptation applied to it: \<open>Upper v\<close> is \<open>v.toUpperCase()\<close> and \<open>Capital v\<close> is
  \<open>v[0].toUpperCase() + v.slice(1)\<close>. An inherited function or object has neither a method
  \<open>toUpperCase\<close> nor a property \<open>0\<close>, so both adaptations raise a \<open>TypeError\<close> on it.
\<close>

datatype suggestion = Upper string | Capital string | Plain jsprop

definition smartCase :: "string \<Rightarrow> jsprop \<Rightarrow> error + suggestion" where
  "smartCase orig simple =
     (if \<not> truthy simple then Inr (Plain (Str []))
      else if list_all upperFixed orig then
        (case simple of Str v \<Rightarrow> Inr (Upper v) | Obj \<Rightarrow> Inl TypeError)
      else if (case orig of c # _ \<Rightarrow> upperFixed c | [] \<Rightarrow> False) then
        (case simple of Str v \<Rightarrow> Inr (Capital v) | Obj \<Rightarrow> Inl TypeError)
      else Inr (Plain simple))"

text \<open>
  \<open>SIMPLE_WORD_MAP[lower] ? smartCase(wOrig, SIMPLE_WORD_MAP[lower]) : null\<close>, line 149, and
  the same in two steps at lines 566-567.
\<close>

definition suggest :: "(string \<Rightarrow> string option) \<Rightarrow> string \<Rightarrow> string \<Rightarrow> error + suggestion option" where
  "suggest own wOrig lower =
     (case getProp own lower of
        None \<Rightarrow> Inr None
      | Some simple \<Rightarrow>
          if truthy simple
          then (case smartCase wOrig simple of Inl e \<Rightarrow> Inl e | Inr r \<Rightarrow> Inr (Some r))
          else Inr None)"

subsection \<open>The token test\<close>

text \<open>
  The body of the token loop, lines 136-164: \<open>Inr True\<close> when the token at \<open>tokenIndex\<close> gets
  a hard-word decoration, \<open>Inr False\<close> when it gets none (each \<open>continue\<close>, and a token that
  is easy or not hard), \<open>Inl TypeError\<close> when the suggestion for a hard word raises. The
  tooltip text built from the suggestion is not part of the model.
\<close>

definition flagWord ::
  "(string \<Rightarrow> string option) \<Rightarrow> jsnum \<Rightarrow> string set \<Rightarrow> nat \<Rightarrow> string \<Rightarrow> error + bool" where
  "flagWord own targetGrade easySet tokenIndex wOrig =
     (let w = stripApos wOrig; lower = toLowerCase w in
      if w = [] \<or> isUrlLike w \<or> isNumberLike w then Inr False
      else if 0 < tokenIndex \<and> isLikelyProperNoun wOrig then Inr False
      else if isAllCaps wOrig then Inr False
      else let syl = countSyllables w;
               isHard = (thresh targetGrade \<le> syl);
               isEasy = (lower \<in> easySet)
           in if \<not> isEasy \<and> isHard
              then (case suggest own wOrig lower of Inl e \<Rightarrow> Inl e | Inr suggestion \<Rightarrow> Inr True)
              else Inr False)"

subsection \<open>The second listing's estimator\<close>

text \<open>
  \<open>syllables\<close>, lines 449-461. \<open>w in exceptions\<close> holds for the six keys of the object and
  for every property the object inherits from \<open>Object.prototype\<close>; for an inherited key
  \<open>exceptions[w]\<close> is that inherited property, a function or an object and not a number.
\<close>

datatype sylval = Count int | Inherited

definition exceptions :: "string \<Rightarrow> int option" where
  "exceptions = [''queue'' \<mapsto> 2, ''people'' \<mapsto> 2, ''business'' \<mapsto> 2, ''every'' \<mapsto> 2,
                 ''family'' \<mapsto> 3, ''chocolate'' \<mapsto> 3]"

definition isVowelChar :: "char \<Rightarrow> bool" where
  "isVowelChar c = (c \<in> set ''aeiouy'')"

text \<open>
  The counting loop. \<open>prev\<close> is \<open>vowels.includes(w[i - 1] || "")\<close>; at \<open>i = 0\<close> that is
  \<open>vowels.includes("")\<close>, which is true.
\<close>

fun vowelStarts :: "bool \<Rightarrow> string \<Rightarrow> int" where
  "vowelStarts prev [] = 0"
| "vowelStarts prev (c # cs) =
     (if isVowelChar c \<and> \<not> prev then 1 else 0) + vowelStarts (isVowelChar c) cs"

definition syllables :: "string \<Rightarrow> sylval" where
  "syllables word =
     (let w = filter (\<lambda>c. isLowerAZ c \<or> isApos c) (toLowerCase word) in
      if w = [] then Count 0
      else case exceptions w of
        Some n \<Rightarrow> Count n
      | None \<Rightarrow>
          if w \<in> set Object_prototype_keys then Inherited
          else let count = vowelStarts True w;
                   count2 = (if w \<noteq> [] \<and> last w = CHR ''e'' then count - 1 else count)
               in Count (max 1 count2))"

text \<open>\<open>syl >= thresh\<close>: a function or an object converts to \<open>NaN\<close>, and the test is false.\<close>

fun sylGe :: "sylval \<Rightarrow> nat \<Rightarrow> bool" where
  "sylGe (Count n) t = (int t \<le> n)"
| "sylGe Inherited t = False"

text \<open>Lines 553-583.\<close>

definition flagWord_v2 ::
  "(string \<Rightarrow> string option) \<Rightarrow> jsnum \<Rightarrow> string set \<Rightarrow> nat \<Rightarrow> string \<Rightarrow> error + bool" where
  "flagWord_v2 own targetGrade easySet tokenIndex wOrig =
     (let w = stripApos wOrig; lower = toLowerCase w in
      if w = [] \<or> isUrlLike w \<or> isNumberLike w then Inr False
      else if 0 < tokenIndex \<and> isLikelyProperNoun wOrig then Inr False
      else if isAllCaps wOrig then Inr False
      else let isEasy = (lower \<in> easySet);
               syl = syllables w;
               isHardBySyll = sylGe syl (thresh targetGrade)
           in if \<not> isEasy \<and> isHardBySyll
              then (case suggest own wOrig lower of Inl e \<Rightarrow> Inl e | Inr suggestion \<Rightarrow> Inr True)
              else Inr False)"

section \<open>The annotation builder\<close>

text \<open>
  \<open>text.match(/[^.!?\<dots>]+[.!?\<dots>]*/g) || []\<close>: a match starts at the next character that is
  not a terminator, runs over all the non-terminators and then over all the terminators
  that follow.
\<close>

lemma dropWhile_term_shorter:
  assumes "dropWhile t s \<noteq> []"
  shows "length (dropWhile t (dropWhile (\<lambda>c. \<not> t c) (dropWhile t s))) < length s"
proof -
  let ?a = "dropWhile t s"
  let ?b = "dropWhile (\<lambda>c. \<not> t c) ?a"
  from assms have "\<not> t (hd ?a)" by (rule hd_dropWhile)
  with assms have "length ?b < length ?a"
    by (cases ?a) (auto simp: less_Suc_eq_le length_dropWhile_le)
  moreover have "length (dropWhile t ?b) \<le> length ?b" by (rule length_dropWhile_le)
  moreover have "length ?a \<le> length s" by (rule length_dropWhile_le)
  ultimately show ?thesis by simp
qed

function splitIntoSentences :: "string \<Rightarrow> string list" where
  "splitIntoSentences text =
     (let s = dropWhile isSentenceEnd text in
      if s = [] then []
      else let body = takeWhile (\<lambda>c. \<not> isSentenceEnd c) s;
               r = dropWhile (\<lambda>c. \<not> isSentenceEnd c) s
           in (body @ takeWhile isSentenceEnd r) # splitIntoSentences (dropWhile isSentenceEnd r))"
  by pat_completeness auto
termination
  by (relation "measure length") (auto simp: dropWhile_term_shorter)

declare splitIntoSentences.simps [simp del]

text \<open>
  \<open>text.indexOf(s, searchFrom)\<close>: the first position at or after \<open>searchFrom\<close> where \<open>s\<close>
  occurs; \<open>None\<close> is \<open>-1\<close>.
\<close>

definition indexOf :: "string \<Rightarrow> string \<Rightarrow> nat \<Rightarrow> nat option" where
  "indexOf text s searchFrom =
     List.find (\<lambda>i. take (length s) (drop i text) = s)
       [min searchFrom (length text) ..< Suc (length text)]"

text \<open>
  The word pattern \<open>/\b[\w'-]+\b/g\<close>. \<open>wordBoundary s p\<close> is \<open>\b\<close> at position \<open>p\<close>. A match
  at \<open>i\<close> needs a boundary at \<open>i\<close>; the run of token characters is taken as long as possible
  and then given back one character at a time until it ends at a boundary.
\<close>

definition isWordAt :: "string \<Rightarrow> nat \<Rightarrow> bool" where
  "isWordAt s i = (i < length s \<and> isWordChar (s ! i))"

definition wordBoundary :: "string \<Rightarrow> nat \<Rightarrow> bool" where
  "wordBoundary s p = ((0 < p \<and> isWordAt s (p - 1)) \<noteq> isWordAt s p)"

definition matchAt :: "string \<Rightarrow> nat \<Rightarrow> nat option" where
  "matchAt s i =
     (if wordBoundary s i
      then List.find (\<lambda>k. wordBoundary s (i + k))
             (rev [1 ..< Suc (length (takeWhile isTokChar (drop i s)))])
      else None)"

lemma matchAt_pos: "matchAt s i = Some k \<Longrightarrow> 0 < k"
proof -
  let ?ks = "rev [1 ..< Suc (length (takeWhile isTokChar (drop i s)))]"
  assume "matchAt s i = Some k"
  then have "List.find (\<lambda>k. wordBoundary s (i + k)) ?ks = Some k"
    by (simp add: matchAt_def split: if_splits)
  then obtain j where "j < length ?ks" and "k = ?ks ! j"
    unfolding find_Some_iff by blast
  then have "k \<in> set ?ks"
    using nth_mem by blast
  then show ?thesis by auto
qed

text \<open>
  The \<open>exec\<close> loop from \<open>lastIndex = i\<close>: the matches in order, each with its \<open>m.index\<close>.
\<close>

function execAll :: "string \<Rightarrow> nat \<Rightarrow> (nat \<times> string) list" where
  "execAll s i =
     (if length s \<le> i then []
      else case matchAt s i of
        Some k \<Rightarrow> (i, take k (drop i s)) # execAll s (i + k)
      | None \<Rightarrow> execAll s (Suc i))"
  by pat_completeness auto
termination
  by (relation "measure (\<lambda>(s, i). length s - i)") (auto dest: matchAt_pos)

declare execAll.simps [simp del]

datatype kind = Highlight tag | HardWord

text \<open>
  A decoration: its range and what it marks. \<open>d_source\<close> is not part of the decoration; it
  records the string the decision was taken on (the trimmed sentence given to
  \<open>analyzeSentence\<close>, the token \<open>m[0]\<close>).
\<close>

record deco =
  d_from :: nat
  d_to :: nat
  d_kind :: kind
  d_source :: string

text \<open>
  A loop whose body may raise: the first error ends it, and nothing of the state built so
  far is returned.
\<close>

fun runLoop :: "('s \<Rightarrow> 'a \<Rightarrow> error + 's) \<Rightarrow> 's \<Rightarrow> 'a list \<Rightarrow> error + 's" where
  "runLoop step st [] = Inr st"
| "runLoop step st (x # xs) =
     (case step st x of Inl e \<Rightarrow> Inl e | Inr st' \<Rightarrow> runLoop step st' xs)"

text \<open>
  The token loop of one sentence, lines 133-165, over the matches of the word pattern;
  \<open>tokenIndex\<close> counts every match. \<open>flag\<close> is the token test.
\<close>

definition wordStep ::
  "(nat \<Rightarrow> string \<Rightarrow> error + bool) \<Rightarrow> nat \<Rightarrow> nat \<times> deco list \<Rightarrow> nat \<times> string
     \<Rightarrow> error + nat \<times> deco list" where
  "wordStep flag from st m =
     (let tokenIndex = fst st; decos = snd st; index = fst m; wOrig = snd m in
      case flag tokenIndex wOrig of
        Inl e \<Rightarrow> Inl e
      | Inr b \<Rightarrow>
          Inr (Suc tokenIndex,
               if b then decos @ [\<lparr>d_from = from + index, d_to = from + index + length wOrig,
                                   d_kind = HardWord, d_source = wOrig\<rparr>]
               else decos))"

definition wordDecos ::
  "(nat \<Rightarrow> string \<Rightarrow> error + bool) \<Rightarrow> nat \<Rightarrow> string \<Rightarrow> error + deco list" where
  "wordDecos flag from s =
     (case runLoop (wordStep flag from) (0, []) (execAll s 0) of
        Inl e \<Rightarrow> Inl e
      | Inr st \<Rightarrow> Inr (snd st))"

text \<open>
  One round of the loop over the sentence parts, lines 108-169. The state is \<open>searchFrom\<close>
  and the decorations so far. \<open>cls\<close> is \<open>classify\<close> at the target grade, \<open>flag\<close> the token
  test at the target grade and the easy set, and \<open>up s\<close> the rounding side for the grade of
  the sentence \<open>s\<close>.
\<close>

definition sentenceStep ::
  "(string \<Rightarrow> bool) \<Rightarrow> (nat \<Rightarrow> jsnum \<Rightarrow> tag option) \<Rightarrow> (nat \<Rightarrow> string \<Rightarrow> error + bool) \<Rightarrow> bool
     \<Rightarrow> string \<Rightarrow> nat \<Rightarrow> nat \<times> deco list \<Rightarrow> string \<Rightarrow> error + nat \<times> deco list" where
  "sentenceStep up cls flag showHardWords text blockFrom st raw =
     (let searchFrom = fst st; decos = snd st; s = trim raw in
      if s = [] then Inr (searchFrom + length raw, decos)
      else
        let m = analyzeSentence (up s) s;
            color = cls (m_wordCount m) (m_grade m)
        in case indexOf text s searchFrom of
             None \<Rightarrow> Inr (searchFrom + length raw, decos)
           | Some startInNode \<Rightarrow>
               let from = blockFrom + startInNode;
                   to = from + length s;
                   decos2 = decos
                     @ (case color of
                          Some c \<Rightarrow> [\<lparr>d_from = from, d_to = to, d_kind = Highlight c, d_source = s\<rparr>]
                        | None \<Rightarrow> [])
               in if showHardWords
                  then (case wordDecos flag from s of
                          Inl e \<Rightarrow> Inl e
                        | Inr ws \<Rightarrow> Inr (startInNode + length s, decos2 @ ws))
                  else Inr (startInNode + length s, decos2))"

text \<open>The decorations of one block with text content \<open>text\<close> at position \<open>pos\<close>.\<close>

definition blockDecorations ::
  "(string \<Rightarrow> bool) \<Rightarrow> (nat \<Rightarrow> jsnum \<Rightarrow> tag option) \<Rightarrow> (nat \<Rightarrow> string \<Rightarrow> error + bool) \<Rightarrow> bool
     \<Rightarrow> string \<Rightarrow> nat \<Rightarrow> error + deco list" where
  "blockDecorations up cls flag showHardWords text pos =
     (if text = [] then Inr []
      else let blockFrom = pos + 1
           in case runLoop (sentenceStep up cls flag showHardWords text blockFrom) (0, [])
                     (splitIntoSentences text) of
                Inl e \<Rightarrow> Inl e
              | Inr st \<Rightarrow> Inr (snd st))"

record settings =
  targetGrade :: jsnum
  showHardWords :: bool
  easySet :: "string set"

record node =
  typeName :: string
  textContent :: string
  nodePos :: nat

definition isBlock :: "node \<Rightarrow> bool" where
  "isBlock n = (typeName n \<in> set [''paragraph'', ''list_item'', ''heading''])"

text \<open>
  The callback of \<open>doc.descendants\<close> on one node: the decorations of a block are pushed
  after those of the nodes before it.
\<close>

definition nodeStep ::
  "(string \<Rightarrow> bool) \<Rightarrow> (nat \<Rightarrow> jsnum \<Rightarrow> tag option) \<Rightarrow> (nat \<Rightarrow> string \<Rightarrow> error + bool) \<Rightarrow> bool
     \<Rightarrow> deco list \<Rightarrow> node \<Rightarrow> error + deco list" where
  "nodeStep up cls flag showHard decos n =
     (if \<not> isBlock n then Inr decos
      else case blockDecorations up cls flag showHard (textContent n) (nodePos n) of
             Inl e \<Rightarrow> Inl e
           | Inr ds \<Rightarrow> Inr (decos @ ds))"

text \<open>
  \<open>buildDecorations\<close>, lines 90-173 and 499-592, over the nodes that \<open>doc.descendants\<close>
  visits, in its order. \<open>own\<close> is \<open>SIMPLE_WORD_MAP\<close>. An error raised for one token leaves
  \<open>buildDecorations\<close> without a result.
\<close>

definition buildDecorations ::
  "(string \<Rightarrow> string option) \<Rightarrow> (string \<Rightarrow> bool) \<Rightarrow> settings \<Rightarrow> node list \<Rightarrow> error + deco list" where
  "buildDecorations own up cfg doc =
     runLoop (nodeStep up (\<lambda>w g. classify w g (targetGrade cfg))
                (flagWord own (targetGrade cfg) (easySet cfg)) (showHardWords cfg))
       [] doc"

definition buildDecorations_v2 ::
  "(string \<Rightarrow> string option) \<Rightarrow> (string \<Rightarrow> bool) \<Rightarrow> settings \<Rightarrow> node list \<Rightarrow> error + deco list" where
  "buildDecorations_v2 own up cfg doc =
     runLoop (nodeStep up (\<lambda>w g. classify_v2 w g (targetGrade cfg))
                (flagWord_v2 own (targetGrade cfg) (easySet cfg)) (showHardWords cfg))
       [] doc"

text \<open>\<open>text.slice(a, b)\<close> for \<open>a \<le> b\<close>.\<close>

definition slice :: "string \<Rightarrow> nat \<Rightarrow> nat \<Rightarrow> string" where
  "slice text a b = take (b - a) (drop a text)"

section \<open>The easy-word set\<close>

text \<open>The seed list, lines 391-400 (the same words at lines 805-813).\<close>

definition MIN_EASY_WORDS :: "string list" where
  "MIN_EASY_WORDS =
     [''a'', ''about'', ''after'', ''all'', ''also'', ''an'', ''and'', ''any'', ''are'',
      ''as'', ''at'', ''back'', ''be'', ''because'', ''been'', ''before'', ''but'', ''by'',
      ''can'', ''come'', ''could'', ''day'', ''did'', ''do'', ''down'', ''each'', ''even'',
      ''every'', ''few'', ''find'', ''first'', ''for'', ''from'', ''get'', ''go'',
      ''good'', ''had'', ''has'', ''have'', ''he'', ''her'', ''here'', ''him'', ''his'',
      ''how'', ''i'', ''if'', ''in'', ''into'', ''is'', ''it'', ''just'', ''know'',
      ''like'', ''little'', ''long'', ''look'', ''made'', ''make'', ''man'', ''many'',
      ''may'', ''me'', ''men'', ''more'', ''most'', ''much'', ''must'', ''my'', ''new'',
      ''no'', ''not'', ''now'', ''of'', ''off'', ''old'', ''on'', ''one'', ''only'',
      ''or'', ''other'', ''our'', ''out'', ''over'', ''people'', ''right'', ''said'',
      ''see'', ''she'', ''so'', ''some'', ''than'', ''that'', ''the'', ''their'', ''them'',
      ''then'', ''there'', ''these'', ''they'', ''this'', ''time'', ''to'', ''two'',
      ''up'', ''us'', ''use'', ''very'', ''want'', ''was'', ''way'', ''we'', ''well'',
      ''went'', ''were'', ''what'', ''when'', ''where'', ''which'', ''who'', ''will'',
      ''with'', ''work'', ''would'', ''year'', ''years'', ''you'', ''your'']"

datatype json =
  JNull | JBool bool | JNum rat | JStr string | JArr "json list" | JObj "(string \<times> json) list"

text \<open>
  What the one fetch of \<open>daleChallEasyWords.json\<close> can come to: the request fails, the
  response is not \<open>ok\<close>, the body is not JSON, or the body parses to a value.
\<close>

datatype fetched = FetchRejected | NotOk | BodyInvalid | Body json

text \<open>
  \<open>list.map(w => w.toLowerCase())\<close>: \<open>None\<close> when an element is not a string, where the
  call raises a \<open>TypeError\<close>.
\<close>

fun lowerAll :: "json list \<Rightarrow> string list option" where
  "lowerAll [] = Some []"
| "lowerAll (JStr w # xs) =
     (case lowerAll xs of Some ws \<Rightarrow> Some (toLowerCase w # ws) | None \<Rightarrow> None)"
| "lowerAll (_ # xs) = None"

text \<open>
  The second \<open>then\<close> callback, lines 236-240, on the state \<open>easySet\<close>; a \<open>TypeError\<close> goes to
  the empty \<open>catch\<close> and leaves the state as it is.
\<close>

definition onList :: "string set \<Rightarrow> json \<Rightarrow> string set" where
  "onList cur list =
     (case list of
        JArr xs \<Rightarrow>
          if length xs \<noteq> 0
          then (case lowerAll xs of Some ws \<Rightarrow> set ws | None \<Rightarrow> cur)
          else cur
      | _ \<Rightarrow> cur)"

definition loadEasyWords :: "string set \<Rightarrow> fetched \<Rightarrow> string set" where
  "loadEasyWords cur outcome =
     (case outcome of
        FetchRejected \<Rightarrow> cur
      | NotOk \<Rightarrow> onList cur (JArr [])
      | BodyInvalid \<Rightarrow> cur
      | Body v \<Rightarrow> onList cur v)"

text \<open>The state \<open>easySet\<close> of the component, line 208, and after the fetch has settled.\<close>

definition easySet_init :: "string set" where
  "easySet_init = set MIN_EASY_WORDS"

definition easySet_after :: "fetched \<Rightarrow> string set" where
  "easySet_after outcome = loadEasyWords easySet_init outcome"

section \<open>The classifier's triggers\<close>

text \<open>The four flags the second listing computes for the tooltip, lines 531-535.\<close>

definition byLengthHard :: "nat \<Rightarrow> bool" where
  "byLengthHard wordCount = (HEMI_VERY_HARD_WORDS \<le> wordCount)"

definition byLengthYellow :: "nat \<Rightarrow> bool" where
  "byLengthYellow wordCount = (HEMI_HARD_WORDS \<le> wordCount)"

definition byDeltaHard :: "nat \<Rightarrow> jsnum \<Rightarrow> jsnum \<Rightarrow> bool" where
  "byDeltaHard wordCount grade target =
     (jgt (jsub grade target) DELTA_VERY_HARD \<and> MIN_RED_WORDS_FOR_GRADE \<le> wordCount)"

definition byDeltaYellow :: "nat \<Rightarrow> jsnum \<Rightarrow> jsnum \<Rightarrow> bool" where
  "byDeltaYellow wordCount grade target =
     (jgt (jsub grade target) DELTA_HARD \<and> MIN_YELLOW_WORDS_FOR_GRADE \<le> wordCount)"

text \<open>
  \<open>classify_v2\<close> with its two absolute-length thresholds as parameters, to state what a
  threshold other than 25 gives.
\<close>

definition classify_at :: "nat \<Rightarrow> nat \<Rightarrow> nat \<Rightarrow> jsnum \<Rightarrow> jsnum \<Rightarrow> tag option" where
  "classify_at veryHardWords hardWords words grade target =
     (let delta = jsub grade target in
      if veryHardWords \<le> words then Some Red
      else if hardWords \<le> words then Some Yellow
      else if jgt delta DELTA_VERY_HARD \<and> MIN_RED_WORDS_FOR_GRADE \<le> words then Some Red
      else if jgt delta DELTA_HARD \<and> MIN_YELLOW_WORDS_FOR_GRADE \<le> words then Some Yellow
      else if ENABLE_BLUE_v2 \<and> LONG_SENTENCE_WORDS \<le> words then Some Blue
      else None)"

section \<open>What a decoration is checked against\<close>

text \<open>
  The trimmed, non-empty sentence fragments of a block: the strings that
  \<open>analyzeSentence\<close> is called on and that the token loop runs over.
\<close>

definition fragments :: "string \<Rightarrow> string list" where
  "fragments text = filter (\<lambda>s. s \<noteq> []) (map trim (splitIntoSentences text))"

text \<open>
  \<open>located text pos d\<close>: the range of \<open>d\<close>, taken relative to the start \<open>pos + 1\<close> of the
  block, cuts the string \<open>d_source d\<close> out of the block's text.
  \<open>analysed up cls flag text d\<close>: a sentence decoration carries one of the block's
  fragments and the tag that \<open>cls\<close> gives to its metrics; a word decoration carries a token
  of one of the fragments, and the token test \<open>flag\<close> at its token index says to decorate.
\<close>

definition located :: "string \<Rightarrow> nat \<Rightarrow> deco \<Rightarrow> bool" where
  "located text pos d =
     (pos + 1 \<le> d_from d \<and> d_from d \<le> d_to d
      \<and> slice text (d_from d - (pos + 1)) (d_to d - (pos + 1)) = d_source d)"

definition analysed ::
  "(string \<Rightarrow> bool) \<Rightarrow> (nat \<Rightarrow> jsnum \<Rightarrow> tag option) \<Rightarrow> (nat \<Rightarrow> string \<Rightarrow> error + bool)
     \<Rightarrow> string \<Rightarrow> deco \<Rightarrow> bool" where
  "analysed up cls flag text d =
     (case d_kind d of
        Highlight c \<Rightarrow>
          d_source d \<in> set (fragments text)
          \<and> cls (m_wordCount (analyzeSentence (up (d_source d)) (d_source d)))
                 (m_grade (analyzeSentence (up (d_source d)) (d_source d))) = Some c
      | HardWord \<Rightarrow>
          (\<exists>s \<in> set (fragments text). \<exists>tokenIndex index.
             tokenIndex < length (execAll s 0)
             \<and> execAll s 0 ! tokenIndex = (index, d_source d)
             \<and> flag tokenIndex (d_source d) = Inr True))"

text \<open>An example document and example settings, used to instantiate the properties.\<close>

definition exampleDoc :: "node list" where
  "exampleDoc =
     [\<lparr>typeName = ''text'', textContent = ''Go. a b c d e f g h i j k l m n extraordinarily.'',
        nodePos = 5\<rparr>,
      \<lparr>typeName = ''paragraph'',
        textContent = ''Go. a b c d e f g h i j k l m n extraordinarily.'', nodePos = 4\<rparr>]"

definition exampleMap :: "string \<Rightarrow> string option" where
  "exampleMap = [''utilize'' \<mapsto> ''use'', ''approximately'' \<mapsto> ''about'']"

definition exampleSettings :: settings where
  "exampleSettings = \<lparr>targetGrade = Fin 6, showHardWords = True, easySet = {''a''}\<rparr>"

section \<open>Properties of the classifier\<close>

lemmas classify_consts =
  ENABLE_BLUE_def LONG_SENTENCE_WORDS_def DELTA_HARD_def DELTA_VERY_HARD_def
  MIN_YELLOW_WORDS_FOR_GRADE_def MIN_RED_WORDS_FOR_GRADE_def ENABLE_BLUE_v2_def
  HEMI_HARD_WORDS_def HEMI_VERY_HARD_WORDS_def

text \<open>
  C4. A sentence of fewer than 8 words is never tagged, whatever its grade and the target:
  the first listing returns early, and in the second listing every rule has a word floor
  of at least 14.
\<close>

theorem short_sentence_none:
  "words < 8 \<Longrightarrow>
     classify words grade target = None \<and> classify_v2 words grade target = None"
  by (simp add: classify_def classify_v2_def classify_consts Let_def)

theorem short_sentence_none_witness:
  "(7::nat) < 8 \<and> classify 7 (Fin 50) (Fin 6) = None \<and> classify_v2 7 (Fin 50) (Fin 6) = None"
  using short_sentence_none [of 7 "Fin 50" "Fin 6"] by simp

lemma classify_v2_at: "classify_v2 = classify_at HEMI_VERY_HARD_WORDS HEMI_HARD_WORDS"
  by (intro ext) (simp add: classify_v2_def classify_at_def)

lemma classify_v2_long_is_yellow:
  "HEMI_HARD_WORDS \<le> words \<Longrightarrow> words < HEMI_VERY_HARD_WORDS \<Longrightarrow>
     classify_v2 words grade target = Some Yellow"
  by (simp add: classify_v2_def classify_consts Let_def)

lemma classify_delta_before_blue:
  "8 \<le> words \<Longrightarrow> jge (jsub grade target) DELTA_VERY_HARD \<Longrightarrow> MIN_RED_WORDS_FOR_GRADE \<le> words \<Longrightarrow>
     classify words grade target = Some Red"
  by (simp add: classify_def classify_consts Let_def)

text \<open>
  The first listing has no absolute-length rule for red or yellow: 25 easy words are blue.
\<close>

lemma classify_no_length_red: "classify 25 (Fin 0) (Fin 6) = Some Blue"
  by (simp add: classify_def classify_consts jsub_def)

text \<open>
  C1. In the second listing a sentence of 20 words, ten grades read against a target of 6,
  meets the long threshold but not the very long one, and meets the red rule of the grade
  delta (delta 4 above 3, at least 18 words); \<open>classify_v2\<close> returns yellow, the tag of the
  length rule, because that rule is tested first.
\<close>

theorem classify_v2_length_rule_masks_red:
  "byLengthYellow 20 \<and> \<not> byLengthHard 20 \<and> byDeltaHard 20 (Fin 10) (Fin 6)
     \<and> classify_v2 20 (Fin 10) (Fin 6) = Some Yellow"
  by (simp add: byLengthYellow_def byLengthHard_def byDeltaHard_def classify_v2_def
      classify_consts jsub_def)

text \<open>
  C2. A word count at or above the very long threshold is red whatever the grade and the
  target are, also when they are \<open>NaN\<close> or infinite. The threshold of the source is 25; with
  a threshold of at most 22, a sentence of 22 words is red.
\<close>

theorem very_long_is_red:
  "(HEMI_VERY_HARD_WORDS \<le> words \<longrightarrow> classify_v2 words grade target = Some Red)
     \<and> (veryHardWords \<le> 22 \<longrightarrow> classify_at veryHardWords hardWords 22 grade target = Some Red)"
  by (simp add: classify_v2_def classify_at_def Let_def)

theorem very_long_is_red_witness:
  "HEMI_VERY_HARD_WORDS \<le> 25 \<and> classify_v2 25 NaN (Fin 6) = Some Red
     \<and> (22::nat) \<le> 22 \<and> classify_at 22 20 22 NaN (Fin 6) = Some Red"
  using very_long_is_red [of 25 NaN "Fin 6" 22 20] by (simp add: HEMI_VERY_HARD_WORDS_def)

text \<open>
  C8. At 18 words, grade 9 and target 6 the delta is exactly the very hard margin 3: the
  first listing compares with \<open>>=\<close> and returns red, the second compares with \<open>>\<close> and
  returns yellow. At 14 words, grade 7 and target 6 the delta is exactly the hard margin 1:
  yellow in the first listing, no tag in the second. The two functions are not equal.
\<close>

theorem classify_listings_differ:
  "jsub (Fin 9) (Fin 6) = DELTA_VERY_HARD
     \<and> classify 18 (Fin 9) (Fin 6) = Some Red \<and> classify_v2 18 (Fin 9) (Fin 6) = Some Yellow
     \<and> jsub (Fin 7) (Fin 6) = DELTA_HARD
     \<and> classify 14 (Fin 7) (Fin 6) = Some Yellow \<and> classify_v2 14 (Fin 7) (Fin 6) = None
     \<and> classify \<noteq> classify_v2"
proof -
  have a: "classify 18 (Fin 9) (Fin 6) = Some Red"
    by (simp add: classify_def classify_consts jsub_def)
  have b: "classify_v2 18 (Fin 9) (Fin 6) = Some Yellow"
    by (simp add: classify_v2_def classify_consts jsub_def)
  have c: "classify 14 (Fin 7) (Fin 6) = Some Yellow"
    by (simp add: classify_def classify_consts jsub_def)
  have d: "classify_v2 14 (Fin 7) (Fin 6) = None"
    by (simp add: classify_v2_def classify_consts jsub_def)
  have "classify \<noteq> classify_v2"
  proof
    assume "classify = classify_v2"
    then have "classify 18 (Fin 9) (Fin 6) = classify_v2 18 (Fin 9) (Fin 6)" by simp
    with a b show False by simp
  qed
  with a b c d show ?thesis
    by (simp add: jsub_def classify_consts)
qed

section \<open>Properties of the scorer\<close>

lemma jdiv_counts: "b \<noteq> 0 \<Longrightarrow> jdiv (jnat a) (jnat b) = Fin (of_nat a / of_nat b)"
  by (simp add: jnat_def)

lemma toFixed1_Fin: "\<exists>r. toFixed1 up (Fin q) = Fin r"
proof -
  have "toFixed1 up (Fin q) =
          Fin (if 10 ^ 21 \<le> \<bar>q\<bar> then q else of_int (toTenths up q) / 10)"
    by simp
  then show ?thesis by blast
qed

lemma countSentences_pos: "0 < countSentences text"
  by (simp add: countSentences_def Let_def)

lemma calculateFleschKincaidGrade_finite: "\<exists>q. calculateFleschKincaidGrade up text = Fin q"
proof -
  have "countSentences text \<noteq> 0" using countSentences_pos [of "text"] by simp
  then show ?thesis
    unfolding calculateFleschKincaidGrade_def Let_def
    by (simp add: jdiv_counts jsub_def toFixed1_Fin del: toFixed1.simps)
qed

lemma calculateFleschReadingEase_finite: "\<exists>q. calculateFleschReadingEase up text = Fin q"
proof -
  have "countSentences text \<noteq> 0" using countSentences_pos [of "text"] by simp
  then show ?thesis
    unfolding calculateFleschReadingEase_def Let_def
    by (simp add: jdiv_counts jsub_def toFixed1_Fin del: toFixed1.simps)
qed

lemma analyzeSentence_finite:
  "0 < countWords sentence \<Longrightarrow> \<exists>q. m_grade (analyzeSentence up sentence) = Fin q"
  unfolding analyzeSentence_def Let_def
  by (simp add: jdiv_counts jsub_def toFixed1_Fin del: toFixed1.simps)

text \<open>
  C3. \<open>calculateFleschKincaidGrade\<close> and \<open>calculateFleschReadingEase\<close> replace a word count of
  0 by 1 and are finite on every text (the two lemmas above). \<open>analyzeSentence\<close> divides the
  syllable count by the word count as it is: on the empty string the word count is 0, the
  syllable count is 1 (the one empty piece of the split counts one syllable), and the grade
  is \<open>11.8 * (1 / 0)\<close>, positive infinity.
\<close>

theorem analyzeSentence_empty_infinite:
  "m_wordCount (analyzeSentence up '''') = 0 \<and> m_syllableCount (analyzeSentence up '''') = 1
     \<and> m_grade (analyzeSentence up '''') = PInf
     \<and> calculateFleschKincaidGrade up '''' = Fin (- (76 / 5))"
  by code_simp

section \<open>Properties of the syllable estimators\<close>

lemma countSyllables_pos: "1 \<le> countSyllables word"
  by (simp add: countSyllables_def Let_def)

lemma countSyllables_short: "length word \<le> 3 \<Longrightarrow> countSyllables word = 1"
  by (simp add: countSyllables_def toLowerCase_def)

lemma exceptions_values: "exceptions w = Some n \<Longrightarrow> 1 \<le> n"
  by (auto simp: exceptions_def split: if_splits)

lemma prototype_keys_not_lower:
  "list_all (\<lambda>k. k = ''constructor'' \<or> \<not> list_all (\<lambda>c. isLowerAZ c \<or> isApos c) k)
     Object_prototype_keys"
  by code_simp

lemma filter_lower_not_key:
  assumes "w = filter (\<lambda>c. isLowerAZ c \<or> isApos c) xs" and "w \<in> set Object_prototype_keys"
  shows "w = ''constructor''"
proof -
  from assms(1) have ok: "list_all (\<lambda>c. isLowerAZ c \<or> isApos c) w"
    by (simp add: list_all_iff)
  from prototype_keys_not_lower assms(2)
  have "w = ''constructor'' \<or> \<not> list_all (\<lambda>c. isLowerAZ c \<or> isApos c) w"
    unfolding list_all_iff [of _ Object_prototype_keys] by blast
  with ok show ?thesis by blast
qed

text \<open>
  Apart from the one word that reaches an inherited property, \<open>syllables\<close> gives a count,
  and the count is at least 1 as soon as the word has a letter or an apostrophe.
\<close>

lemma syllables_count:
  assumes "filter (\<lambda>c. isLowerAZ c \<or> isApos c) (toLowerCase word) \<noteq> []"
    and "filter (\<lambda>c. isLowerAZ c \<or> isApos c) (toLowerCase word) \<noteq> ''constructor''"
  shows "\<exists>n. syllables word = Count n \<and> 1 \<le> n"
proof -
  let ?w = "filter (\<lambda>c. isLowerAZ c \<or> isApos c) (toLowerCase word)"
  show ?thesis
  proof (cases "exceptions ?w")
    case (Some n)
    with assms(1) have "syllables word = Count n" by (simp add: syllables_def)
    with Some show ?thesis by (simp add: exceptions_values)
  next
    case None
    have "?w \<notin> set Object_prototype_keys"
      using filter_lower_not_key [of ?w "toLowerCase word"] assms(2) by blast
    with None assms(1) show ?thesis by (simp add: syllables_def Let_def)
  qed
qed

lemma smartCase_lower_first:
  assumes "\<not> list_all upperFixed orig"
    and "\<not> (case orig of c # _ \<Rightarrow> upperFixed c | [] \<Rightarrow> False)"
  shows "\<exists>r. smartCase orig simple = Inr r"
  using assms by (simp add: smartCase_def)

lemma suggest_lower_first:
  assumes "\<not> list_all upperFixed orig"
    and "\<not> (case orig of c # _ \<Rightarrow> upperFixed c | [] \<Rightarrow> False)"
  shows "\<exists>r. suggest own orig lower = Inr r"
proof (cases "getProp own lower")
  case None
  then show ?thesis by (simp add: suggest_def)
next
  case (Some simple)
  from smartCase_lower_first [OF assms] obtain r where "smartCase orig simple = Inr r"
    by blast
  with Some show ?thesis by (simp add: suggest_def)
qed

text \<open>
  C9. \<open>countSyllables\<close> is at least 1 on every word and exactly 1 on a word of at most three
  characters (\<open>countSyllables_pos\<close>, \<open>countSyllables_short\<close>). The second listing's
  \<open>syllables\<close> tests \<open>w in exceptions\<close>, which also holds for the inherited key
  \<open>constructor\<close>: on the word ``constructor'' it returns the inherited property, which is
  not a number; the comparison with the threshold is then false and the word is never
  flagged, while the first listing flags it.
\<close>

theorem syllables_constructor_not_a_number:
  "list_all isLowerAZ ''constructor''
     \<and> syllables ''constructor'' = Inherited
     \<and> \<not> sylGe (syllables ''constructor'') 1
     \<and> flagWord_v2 own (Fin 6) {} 0 ''constructor'' = Inr False
     \<and> countSyllables ''constructor'' = 3
     \<and> flagWord own (Fin 6) {} 0 ''constructor'' = Inr True"
proof -
  have a: "list_all isLowerAZ ''constructor''
     \<and> syllables ''constructor'' = Inherited
     \<and> \<not> sylGe (syllables ''constructor'') 1
     \<and> flagWord_v2 own (Fin 6) {} 0 ''constructor'' = Inr False
     \<and> countSyllables ''constructor'' = 3"
    by code_simp
  have u: "\<not> list_all upperFixed ''constructor''"
    and h: "\<not> (case ''constructor'' of c # _ \<Rightarrow> upperFixed c | [] \<Rightarrow> False)"
    by code_simp+
  from suggest_lower_first [OF u h] obtain r where
    r: "suggest own ''constructor'' ''constructor'' = Inr r"
    by blast
  have f: "stripApos ''constructor'' = ''constructor''"
    "toLowerCase ''constructor'' = ''constructor''"
    "\<not> isUrlLike ''constructor''" "\<not> isNumberLike ''constructor''"
    "\<not> isAllCaps ''constructor''" "thresh (Fin 6) = 3"
    by code_simp+
  from a have c: "countSyllables ''constructor'' = 3" by simp
  have "flagWord own (Fin 6) {} 0 ''constructor'' = Inr True"
    by (simp add: flagWord_def Let_def f c r)
  with a show ?thesis by simp
qed

section \<open>Properties of the easy-word set\<close>

lemma lowerAll_length: "lowerAll xs = Some ws \<Longrightarrow> length ws = length xs"
proof (induction xs arbitrary: ws rule: lowerAll.induct)
  case 1
  then show ?case by simp
next
  case (2 w xs)
  then show ?case by (auto split: option.splits)
qed simp_all

lemma onList_cases:
  "onList cur v = cur \<or> (\<exists>xs ws. v = JArr xs \<and> xs \<noteq> [] \<and> lowerAll xs = Some ws \<and> onList cur v = set ws)"
  by (auto simp: onList_def split: json.splits option.splits)

lemma onList_nonempty: "cur \<noteq> {} \<Longrightarrow> onList cur v \<noteq> {}"
proof -
  assume ne: "cur \<noteq> {}"
  from onList_cases [of cur v] show ?thesis
  proof
    assume "onList cur v = cur"
    with ne show ?thesis by simp
  next
    assume "\<exists>xs ws. v = JArr xs \<and> xs \<noteq> [] \<and> lowerAll xs = Some ws \<and> onList cur v = set ws"
    then obtain xs ws where "xs \<noteq> []" and "lowerAll xs = Some ws" and r: "onList cur v = set ws"
      by blast
    then have "ws \<noteq> []" using lowerAll_length [of xs ws] by auto
    with r show ?thesis by simp
  qed
qed

lemma easySet_init_nonempty: "easySet_init \<noteq> {}"
  by (simp add: easySet_init_def MIN_EASY_WORDS_def)

text \<open>
  C10. The state \<open>easySet\<close> starts as the seed list, which is not empty. Whatever the fetch
  comes to, the state afterwards is not empty; more generally the load keeps any non-empty
  set non-empty. The load changes the set only when the payload is an array with at least
  one element: then all its elements are strings and the new set is their lower-cased
  forms. A failed request, a response that is not \<open>ok\<close>, a body that does not parse, a value
  that is not an array, and the empty array leave the set as it is.
\<close>

theorem easySet_never_empty:
  "easySet_init \<noteq> {}
     \<and> easySet_after outcome \<noteq> {}
     \<and> (cur \<noteq> {} \<longrightarrow> loadEasyWords cur outcome \<noteq> {})
     \<and> (loadEasyWords cur outcome \<noteq> cur \<longrightarrow>
          (\<exists>xs ws. outcome = Body (JArr xs) \<and> xs \<noteq> [] \<and> lowerAll xs = Some ws
                   \<and> loadEasyWords cur outcome = set ws))
     \<and> loadEasyWords cur FetchRejected = cur \<and> loadEasyWords cur NotOk = cur
     \<and> loadEasyWords cur BodyInvalid = cur \<and> loadEasyWords cur (Body (JArr [])) = cur
     \<and> loadEasyWords cur (Body (JObj kvs)) = cur"
proof -
  have keep: "c \<noteq> {} \<Longrightarrow> loadEasyWords c outcome \<noteq> {}" for c
    by (cases outcome) (simp_all add: loadEasyWords_def onList_nonempty)
  have only: "loadEasyWords cur outcome \<noteq> cur \<longrightarrow>
          (\<exists>xs ws. outcome = Body (JArr xs) \<and> xs \<noteq> [] \<and> lowerAll xs = Some ws
                   \<and> loadEasyWords cur outcome = set ws)"
  proof (cases outcome)
    case (Body v)
    with onList_cases [of cur v] show ?thesis by (auto simp: loadEasyWords_def)
  qed (simp_all add: loadEasyWords_def onList_def)
  have fixed: "loadEasyWords cur FetchRejected = cur \<and> loadEasyWords cur NotOk = cur
     \<and> loadEasyWords cur BodyInvalid = cur \<and> loadEasyWords cur (Body (JArr [])) = cur
     \<and> loadEasyWords cur (Body (JObj kvs)) = cur"
    by (simp add: loadEasyWords_def onList_def)
  from keep [of easySet_init] easySet_init_nonempty have "easySet_after outcome \<noteq> {}"
    by (simp add: easySet_after_def)
  with easySet_init_nonempty keep [of cur] only fixed show ?thesis by blast
qed

theorem easySet_never_empty_witness:
  "{''a''} \<noteq> ({} :: string set)
     \<and> loadEasyWords {''a''} (Body (JArr [JStr ''Dog''])) = {''dog''}
     \<and> loadEasyWords {''a''} (Body (JArr [JStr ''Dog''])) \<noteq> {''a''}
     \<and> loadEasyWords {''a''} (Body (JArr [JStr ''Dog''])) \<noteq> {}
     \<and> loadEasyWords {''a''} (Body (JArr [JNum 1])) = {''a''}"
proof -
  have low: "toLowerCase ''Dog'' = ''dog''" by code_simp
  have r: "loadEasyWords {''a''} (Body (JArr [JStr ''Dog''])) = {''dog''}"
    by (simp add: loadEasyWords_def onList_def low)
  have n: "loadEasyWords {''a''} (Body (JArr [JNum 1])) = {''a''}"
    by (simp add: loadEasyWords_def onList_def)
  show ?thesis
    using easySet_never_empty [of "Body (JArr [JStr ''Dog''])" "{''a''}"] r n by (simp add: low)
qed

section \<open>Properties of word flagging\<close>

lemma thresh_table:
  "thresh t = (if t = Fin 6 then 3 else if t = Fin 8 then 4 else if t = Fin 10 then 5 else 3)"
  by (simp add: thresh_def HARD_SYLLABLES_BY_TARGET_def)

lemma properNoun_shape:
  "isLikelyProperNoun w \<Longrightarrow> \<exists>c d r. w = c # d # r \<and> isUpperAZ c \<and> isLowerAZ d"
  by (auto simp: isLikelyProperNoun_def split: list.splits)

lemma letter_not_apos: "isUpperAZ c \<or> isLowerAZ c \<Longrightarrow> \<not> isApos c"
  by (auto simp: isUpperAZ_def isLowerAZ_def isApos_def code_def)

lemma stripApos_keeps_two:
  assumes "\<not> isApos c" and "\<not> isApos d"
  shows "stripApos (c # d # r) = c # d # rev (dropWhile isApos (rev r))"
proof -
  have "dropWhile isApos (rev r @ d # [c]) = dropWhile isApos (rev r) @ d # [c]"
    using assms(2) by (rule dropWhile_append3)
  with assms(1) show ?thesis by (simp add: stripApos_def)
qed

lemma stripApos_subset: "set (stripApos w) \<subseteq> set w"
proof
  fix x assume "x \<in> set (stripApos w)"
  then have "x \<in> set (dropWhile isApos (rev (dropWhile isApos w)))"
    by (simp add: stripApos_def)
  then have "x \<in> set (dropWhile isApos w)"
    using set_dropWhileD by fastforce
  then show "x \<in> set w" by (rule set_dropWhileD)
qed

lemma asciiLower_not_letter:
  assumes "asciiLower x = c" and "\<not> isLowerAZ c"
  shows "x = c"
proof (cases "isUpperAZ x")
  case True
  then have "code x + 32 < 256" by (simp add: isUpperAZ_def)
  then have "code (char_of (code x + 32)) = code x + 32"
    by (simp add: code_def)
  with True have "isLowerAZ (asciiLower x)"
    by (simp add: asciiLower_def isLowerAZ_def isUpperAZ_def)
  with assms show ?thesis by simp
next
  case False
  with assms(1) show ?thesis by (simp add: asciiLower_def)
qed

lemma startsWithCI_mem:
  assumes "startsWithCI p w" and "c \<in> set p" and "\<not> isLowerAZ c"
  shows "c \<in> set w"
proof -
  from assms(1) have "set p \<subseteq> set (map asciiLower w)"
    using set_take_subset [of "length p" "map asciiLower w"] by (simp add: startsWithCI_def)
  with assms(2) obtain x where x: "x \<in> set w" and l: "asciiLower x = c" by auto
  from l assms(3) have "x = c" by (rule asciiLower_not_letter)
  with x show ?thesis by simp
qed

text \<open>A string of token characters is never URL-like: it has no dot and no colon.\<close>

lemma token_not_url:
  assumes "list_all isTokChar w"
  shows "\<not> isUrlLike w"
proof
  assume "isUrlLike w"
  then consider "startsWithCI ''http://'' w" | "startsWithCI ''https://'' w" | "startsWithCI ''www.'' w"
    by (auto simp: isUrlLike_def)
  then have "CHR '':'' \<in> set w \<or> CHR ''.'' \<in> set w"
  proof cases
    case 1
    then have "CHR '':'' \<in> set w"
      by (rule startsWithCI_mem) (simp_all add: isLowerAZ_def code_def)
    then show ?thesis ..
  next
    case 2
    then have "CHR '':'' \<in> set w"
      by (rule startsWithCI_mem) (simp_all add: isLowerAZ_def code_def)
    then show ?thesis ..
  next
    case 3
    then have "CHR ''.'' \<in> set w"
      by (rule startsWithCI_mem) (simp_all add: isLowerAZ_def code_def)
    then show ?thesis ..
  qed
  moreover have "\<not> isTokChar CHR '':''" and "\<not> isTokChar CHR ''.''"
    by (simp_all add: isTokChar_def isWordChar_def isUpperAZ_def isLowerAZ_def isDigit_def code_def)
  ultimately show False using assms by (auto simp: list_all_iff)
qed

text \<open>
  A capitalised token passes the first three filters: stripping apostrophes keeps its first
  two characters, it does not start with a digit, and it is not URL-like.
\<close>

lemma properNoun_passes:
  assumes "isLikelyProperNoun wOrig" and "list_all isTokChar wOrig"
  shows "stripApos wOrig \<noteq> [] \<and> \<not> isUrlLike (stripApos wOrig) \<and> \<not> isNumberLike (stripApos wOrig)"
proof -
  from assms(1) obtain c d r where w: "wOrig = c # d # r" and c: "isUpperAZ c" and d: "isLowerAZ d"
    using properNoun_shape by blast
  then have s: "stripApos wOrig = c # d # rev (dropWhile isApos (rev r))"
    by (simp add: stripApos_keeps_two letter_not_apos)
  from assms(2) have "list_all isTokChar (stripApos wOrig)"
    using stripApos_subset [of wOrig] by (auto simp: list_all_iff)
  then have "\<not> isUrlLike (stripApos wOrig)" by (rule token_not_url)
  moreover from c have "\<not> isDigit c" by (simp add: isUpperAZ_def isDigit_def)
  ultimately show ?thesis using s by (simp add: isNumberLike_def)
qed

lemma thresh_ge_3: "3 \<le> thresh t"
  by (simp add: thresh_table)

text \<open>What the token test comes to once no filter removes the token.\<close>

lemma flagWord_unfiltered:
  assumes "stripApos wOrig \<noteq> []"
    and "\<not> isUrlLike (stripApos wOrig)"
    and "\<not> isNumberLike (stripApos wOrig)"
    and "\<not> (0 < tokenIndex \<and> isLikelyProperNoun wOrig)"
    and "\<not> isAllCaps wOrig"
  shows "flagWord own t easy tokenIndex wOrig =
           (if toLowerCase (stripApos wOrig) \<notin> easy \<and> thresh t \<le> countSyllables (stripApos wOrig)
            then (case suggest own wOrig (toLowerCase (stripApos wOrig)) of
                    Inl e \<Rightarrow> Inl e | Inr r \<Rightarrow> Inr True)
            else Inr False)"
  using assms by (auto simp: flagWord_def Let_def)

lemma flagWord_v2_unfiltered:
  assumes "stripApos wOrig \<noteq> []"
    and "\<not> isUrlLike (stripApos wOrig)"
    and "\<not> isNumberLike (stripApos wOrig)"
    and "\<not> (0 < tokenIndex \<and> isLikelyProperNoun wOrig)"
    and "\<not> isAllCaps wOrig"
  shows "flagWord_v2 own t easy tokenIndex wOrig =
           (if toLowerCase (stripApos wOrig) \<notin> easy
                 \<and> sylGe (syllables (stripApos wOrig)) (thresh t)
            then (case suggest own wOrig (toLowerCase (stripApos wOrig)) of
                    Inl e \<Rightarrow> Inl e | Inr r \<Rightarrow> Inr True)
            else Inr False)"
  using assms by (auto simp: flagWord_v2_def Let_def)

text \<open>
  The all-caps filter and the proper-noun filter end the round before anything can raise.
\<close>

lemma allCaps_never_flagged:
  "isAllCaps wOrig \<Longrightarrow>
     flagWord own t easy tokenIndex wOrig = Inr False
     \<and> flagWord_v2 own t easy tokenIndex wOrig = Inr False"
  by (simp add: flagWord_def flagWord_v2_def Let_def)

lemma later_properNoun_never_flagged:
  "0 < tokenIndex \<Longrightarrow> isLikelyProperNoun wOrig \<Longrightarrow>
     flagWord own t easy tokenIndex wOrig = Inr False
     \<and> flagWord_v2 own t easy tokenIndex wOrig = Inr False"
  by (simp add: flagWord_def flagWord_v2_def Let_def)

text \<open>
  The suggestion raises only for a key that the map inherits and does not define itself.
\<close>

lemma smartCase_Str: "\<exists>r. smartCase orig (Str v) = Inr r"
  by (simp add: smartCase_def)

lemma suggest_raises:
  assumes "suggest own wOrig lower = Inl e"
  shows "own lower = None \<and> lower \<in> set Object_prototype_keys"
proof (cases "own lower")
  case None
  with assms show ?thesis
    by (cases "lower \<in> set Object_prototype_keys") (simp_all add: suggest_def getProp_def)
next
  case (Some v)
  from smartCase_Str [of wOrig v] obtain r where "smartCase wOrig (Str v) = Inr r" by blast
  with Some assms show ?thesis by (simp add: suggest_def getProp_def split: if_splits)
qed

lemma toLowerChar_fixed:
  assumes "\<not> ((65 \<le> code c \<and> code c \<le> 90) \<or> (192 \<le> code c \<and> code c \<le> 222 \<and> code c \<noteq> 215))"
  shows "toLowerChar c = c"
  unfolding toLowerChar_def Let_def using assms by (simp only: if_False)

lemma toLowerChar_idem: "toLowerChar (toLowerChar c) = toLowerChar c"
proof (cases "(65 \<le> code c \<and> code c \<le> 90) \<or> (192 \<le> code c \<and> code c \<le> 222 \<and> code c \<noteq> 215)")
  case True
  then have l: "toLowerChar c = char_of (code c + 32)"
    unfolding toLowerChar_def Let_def by (simp only: if_True)
  from True have "code c + 32 < 256" by auto
  then have "code (char_of (code c + 32) :: char) = code c + 32" by (simp add: code_def)
  with True have "toLowerChar (char_of (code c + 32)) = char_of (code c + 32)"
    by (intro toLowerChar_fixed) auto
  with l show ?thesis by simp
next
  case False
  then have "toLowerChar c = c" by (rule toLowerChar_fixed)
  then show ?thesis by simp
qed

lemma toLowerCase_idem: "toLowerCase (toLowerCase w) = toLowerCase w"
  by (simp add: toLowerCase_def toLowerChar_idem)

lemma countSyllables_lower: "countSyllables (toLowerCase w) = countSyllables w"
  by (simp add: countSyllables_def toLowerCase_idem)

lemma syllables_lower: "syllables (toLowerCase w) = syllables w"
  by (simp add: syllables_def toLowerCase_idem)

text \<open>
  Of the inherited keys only \<open>constructor\<close> and \<open>__proto__\<close> are lower-cased forms. The first
  estimator gives \<open>__proto__\<close> two syllables, below every threshold; the second gives it two
  and gives \<open>constructor\<close> no number.
\<close>

lemma inherited_keys_first_listing:
  "list_all (\<lambda>k. toLowerCase k \<noteq> k \<or> k = ''constructor'' \<or> countSyllables k < 3)
     Object_prototype_keys"
  by code_simp

lemma inherited_keys_second_listing:
  "list_all (\<lambda>k. toLowerCase k \<noteq> k \<or> \<not> sylGe (syllables k) 3) Object_prototype_keys"
  by code_simp

lemma sylGe_mono: "sylGe v t \<Longrightarrow> u \<le> t \<Longrightarrow> sylGe v u"
  by (cases v) simp_all

text \<open>
  The first listing's token test raises only for a word whose lower-cased form is
  \<open>constructor\<close>, when the map does not define that key; everywhere else it decides by the
  syllable threshold and the easy set.
\<close>

lemma flagWord_raises:
  assumes "flagWord own t easy tokenIndex wOrig = Inl e"
  shows "toLowerCase (stripApos wOrig) = ''constructor'' \<and> own ''constructor'' = None"
proof -
  let ?w = "stripApos wOrig"
  let ?l = "toLowerCase ?w"
  from assms have hard: "thresh t \<le> countSyllables ?w"
    and s: "suggest own wOrig ?l = Inl e"
    by (auto simp: flagWord_def Let_def split: if_splits sum.splits)
  from s have n: "own ?l = None" and k: "?l \<in> set Object_prototype_keys"
    using suggest_raises by blast+
  from inherited_keys_first_listing k
  have "toLowerCase ?l \<noteq> ?l \<or> ?l = ''constructor'' \<or> countSyllables ?l < 3"
    unfolding list_all_iff by blast
  moreover have "toLowerCase ?l = ?l" by (rule toLowerCase_idem)
  moreover have "3 \<le> countSyllables ?l"
    using hard thresh_ge_3 [of t] by (simp add: countSyllables_lower)
  ultimately have "?l = ''constructor''" by auto
  with n show ?thesis by simp
qed

lemma flagWord_decides:
  assumes "stripApos wOrig \<noteq> []"
    and "\<not> isUrlLike (stripApos wOrig)"
    and "\<not> isNumberLike (stripApos wOrig)"
    and "\<not> (0 < tokenIndex \<and> isLikelyProperNoun wOrig)"
    and "\<not> isAllCaps wOrig"
    and "toLowerCase (stripApos wOrig) \<noteq> ''constructor'' \<or> own ''constructor'' \<noteq> None"
  shows "flagWord own t easy tokenIndex wOrig =
           Inr (thresh t \<le> countSyllables (stripApos wOrig)
                \<and> toLowerCase (stripApos wOrig) \<notin> easy)"
proof (cases "flagWord own t easy tokenIndex wOrig")
  case (Inl e)
  from flagWord_raises [OF Inl] assms(6) have False by simp
  then show ?thesis ..
next
  case (Inr b)
  then show ?thesis
    unfolding flagWord_unfiltered [OF assms(1-5)]
    by (auto split: if_splits sum.splits)
qed

text \<open>
  The second listing's token test never raises: a word that reaches an inherited key is
  not hard by its estimator. It decides by the syllable threshold and the easy set on
  every token that passes the filters.
\<close>

lemma flagWord_v2_total: "flagWord_v2 own t easy tokenIndex wOrig \<noteq> Inl e"
proof
  let ?w = "stripApos wOrig"
  let ?l = "toLowerCase ?w"
  assume a: "flagWord_v2 own t easy tokenIndex wOrig = Inl e"
  then have hard: "sylGe (syllables ?w) (thresh t)"
    and s: "suggest own wOrig ?l = Inl e"
    by (auto simp: flagWord_v2_def Let_def split: if_splits sum.splits)
  from s have k: "?l \<in> set Object_prototype_keys"
    using suggest_raises by blast
  from inherited_keys_second_listing k
  have "toLowerCase ?l \<noteq> ?l \<or> \<not> sylGe (syllables ?l) 3"
    unfolding list_all_iff by blast
  moreover have "toLowerCase ?l = ?l" by (rule toLowerCase_idem)
  moreover have "sylGe (syllables ?l) 3"
    using sylGe_mono [OF hard thresh_ge_3] by (simp add: syllables_lower)
  ultimately show False by simp
qed

lemma flagWord_v2_decides:
  assumes "stripApos wOrig \<noteq> []"
    and "\<not> isUrlLike (stripApos wOrig)"
    and "\<not> isNumberLike (stripApos wOrig)"
    and "\<not> (0 < tokenIndex \<and> isLikelyProperNoun wOrig)"
    and "\<not> isAllCaps wOrig"
  shows "flagWord_v2 own t easy tokenIndex wOrig =
           Inr (sylGe (syllables (stripApos wOrig)) (thresh t)
                \<and> toLowerCase (stripApos wOrig) \<notin> easy)"
proof (cases "flagWord_v2 own t easy tokenIndex wOrig")
  case (Inl e)
  with flagWord_v2_total [of own t easy tokenIndex wOrig e] have False by simp
  then show ?thesis ..
next
  case (Inr b)
  then show ?thesis
    unfolding flagWord_v2_unfiltered [OF assms]
    by (auto split: if_splits sum.splits)
qed

text \<open>
  C6. The token ``Constructor'' as the first token of a sentence, at target grade 6 with an
  empty easy set and a map that does not define \<open>constructor\<close>: no filter removes it, it has
  3 syllables against a threshold of 3 and is not easy, and the first listing's token test
  raises a \<open>TypeError\<close> instead of flagging it: \<open>SIMPLE_WORD_MAP["constructor"]\<close> is the
  inherited function and \<open>smartCase\<close> reads its property \<open>0\<close>. \<open>buildDecorations\<close> on a
  paragraph with that text ends with the error. Every other token is flagged exactly when
  it meets the threshold (3 at grade 6, 4 at grade 8, 5 at grade 10, 3 otherwise) and is
  not easy (\<open>flagWord_decides\<close> with \<open>thresh_table\<close>, and \<open>flagWord_v2_decides\<close> for the second
  listing, which never raises).
\<close>

theorem flagWord_raises_on_Constructor:
  "stripApos ''Constructor'' \<noteq> []
     \<and> \<not> isUrlLike (stripApos ''Constructor'')
     \<and> \<not> isNumberLike (stripApos ''Constructor'')
     \<and> \<not> (0 < (0::nat) \<and> isLikelyProperNoun ''Constructor'')
     \<and> \<not> isAllCaps ''Constructor''
     \<and> thresh (Fin 6) \<le> countSyllables (stripApos ''Constructor'')
     \<and> toLowerCase (stripApos ''Constructor'') \<notin> {}
     \<and> exampleMap ''constructor'' = None
     \<and> flagWord exampleMap (Fin 6) {} 0 ''Constructor'' = Inl TypeError
     \<and> buildDecorations exampleMap (\<lambda>s. True)
          \<lparr>targetGrade = Fin 6, showHardWords = True, easySet = {}\<rparr>
          [\<lparr>typeName = ''paragraph'', textContent = ''Constructor'', nodePos = 0\<rparr>]
        = Inl TypeError"
  by code_simp

text \<open>
  C7. All-caps tokens and capitalised tokens after the first are never flagged, in both
  listings (\<open>allCaps_never_flagged\<close>, \<open>later_properNoun_never_flagged\<close>), and a capitalised
  first token passes every filter (\<open>properNoun_passes\<close>). The capitalised token
  ``Constructor'' is such a token: after the first token it is filtered as a proper noun;
  as the first token it meets the syllable threshold of grade 6 and is not easy, and the
  first listing raises a \<open>TypeError\<close> for it instead of flagging it.
\<close>

theorem capitalised_first_token_raises:
  "isLikelyProperNoun ''Constructor'' \<and> list_all isTokChar ''Constructor''
     \<and> flagWord Map.empty (Fin 6) {} 1 ''Constructor'' = Inr False
     \<and> thresh (Fin 6) \<le> countSyllables (stripApos ''Constructor'')
     \<and> toLowerCase (stripApos ''Constructor'') \<notin> set MIN_EASY_WORDS
     \<and> flagWord Map.empty (Fin 6) (set MIN_EASY_WORDS) 0 ''Constructor'' = Inl TypeError
     \<and> flagWord Map.empty (Fin 6) (set MIN_EASY_WORDS) 0 ''Extraordinarily'' = Inr True
     \<and> flagWord Map.empty (Fin 6) (set MIN_EASY_WORDS) 0 ''Paris'' = Inr False"
  by code_simp

section \<open>Properties of the annotation builder\<close>

lemma find_SomeP: "List.find P xs = Some x \<Longrightarrow> P x"
  unfolding find_Some_iff by blast

lemma find_Some_mem: "List.find P xs = Some x \<Longrightarrow> x \<in> set xs"
  unfolding find_Some_iff using nth_mem by blast

lemma indexOf_occurs: "indexOf text s k = Some i \<Longrightarrow> take (length s) (drop i text) = s"
  unfolding indexOf_def by (rule find_SomeP [where P = "\<lambda>i. take (length s) (drop i text) = s"])

lemma indexOf_from: "indexOf text s k = Some i \<Longrightarrow> min k (length text) \<le> i"
  unfolding indexOf_def by (drule find_Some_mem) auto

lemma matchAt_bounds:
  assumes "matchAt s i = Some k"
  shows "0 < k \<and> k \<le> length (takeWhile isTokChar (drop i s))"
proof -
  let ?ks = "rev [1 ..< Suc (length (takeWhile isTokChar (drop i s)))]"
  from assms have "List.find (\<lambda>k. wordBoundary s (i + k)) ?ks = Some k"
    by (simp add: matchAt_def split: if_splits)
  then have "k \<in> set ?ks" by (rule find_Some_mem)
  then show ?thesis by auto
qed

lemma matchAt_take:
  assumes "matchAt s i = Some k"
  shows "length (take k (drop i s)) = k \<and> i + k \<le> length s \<and> list_all isTokChar (take k (drop i s))"
proof -
  let ?run = "takeWhile isTokChar (drop i s)"
  from assms have k: "0 < k" "k \<le> length ?run" using matchAt_bounds by blast+
  have "length ?run \<le> length (drop i s)" by (rule length_takeWhile_le)
  with k have le: "k \<le> length s - i" by simp
  with k have len: "length (take k (drop i s)) = k \<and> i + k \<le> length s" by auto
  have "take k (?run @ dropWhile isTokChar (drop i s)) = take k ?run"
    using k by (simp del: takeWhile_dropWhile_id)
  then have "take k (drop i s) = take k ?run" by simp
  then have "set (take k (drop i s)) \<subseteq> set ?run" using set_take_subset by metis
  then have "list_all isTokChar (take k (drop i s))"
    by (auto simp: list_all_iff dest: set_takeWhileD)
  with len show ?thesis by blast
qed

text \<open>
  Every match of the word pattern lies inside the sentence at its index, is not empty and
  consists of token characters.
\<close>

lemma execAll_tokens:
  "(j, w) \<in> set (execAll s i) \<Longrightarrow>
     i \<le> j \<and> j + length w \<le> length s \<and> take (length w) (drop j s) = w \<and> w \<noteq> []
       \<and> list_all isTokChar w"
proof (induction s i rule: execAll.induct)
  case (1 s i)
  show ?case
  proof (cases "length s \<le> i")
    case True
    with "1.prems" show ?thesis by (simp add: execAll.simps [of s i])
  next
    case False
    show ?thesis
    proof (cases "matchAt s i")
      case None
      with False "1.prems" have "(j, w) \<in> set (execAll s (Suc i))"
        by (simp add: execAll.simps [of s i])
      with "1.IH"(1) [OF False None] show ?thesis by simp
    next
      case (Some k)
      with False "1.prems" have
        "(j, w) = (i, take k (drop i s)) \<or> (j, w) \<in> set (execAll s (i + k))"
        by (simp add: execAll.simps [of s i])
      then show ?thesis
      proof
        assume "(j, w) = (i, take k (drop i s))"
        moreover have "0 < k" using Some by (rule matchAt_pos)
        ultimately show ?thesis using matchAt_take [OF Some] by auto
      next
        assume "(j, w) \<in> set (execAll s (i + k))"
        with "1.IH"(2) [OF False Some] show ?thesis by simp
      qed
    qed
  qed
qed

text \<open>A loop that ends without an error keeps every invariant that its body keeps.\<close>

lemma runLoop_invariant:
  assumes "runLoop step st xs = Inr st'" and "I st"
    and "\<And>s x s'. x \<in> set xs \<Longrightarrow> I s \<Longrightarrow> step s x = Inr s' \<Longrightarrow> I s'"
  shows "I st'"
  using assms
proof (induction xs arbitrary: st)
  case Nil
  then show ?case by simp
next
  case (Cons x xs)
  from Cons.prems(1) obtain s1 where s1: "step st x = Inr s1" and r: "runLoop step s1 xs = Inr st'"
    by (auto split: sum.splits)
  from Cons.prems(3) [of x st s1] Cons.prems(2) s1 have "I s1" by simp
  moreover have "I s2" if "y \<in> set xs" and "I s" and "step s y = Inr s2" for s y s2
    using Cons.prems(3) [of y s s2] that by simp
  ultimately show ?case using Cons.IH [OF r] by blast
qed

lemma runLoop_total:
  assumes "\<And>s x. x \<in> set xs \<Longrightarrow> \<exists>s'. step s x = Inr s'"
  shows "\<exists>st'. runLoop step st xs = Inr st'"
  using assms
proof (induction xs arbitrary: st)
  case Nil
  then show ?case by simp
next
  case (Cons x xs)
  from Cons.prems obtain s1 where "step st x = Inr s1" by fastforce
  with Cons.IH [of s1] Cons.prems show ?case by simp
qed

text \<open>
  The token loop: every decoration it adds belongs to one of the matches, at the index the
  loop has reached, with the token test saying to decorate.
\<close>

lemma wordLoop_mem:
  assumes "runLoop (wordStep flag from) st ms = Inr st'" and "d \<in> set (snd st')"
  shows "d \<in> set (snd st)
           \<or> (\<exists>i j w. i < length ms \<and> ms ! i = (j, w) \<and> flag (fst st + i) w = Inr True
                \<and> d = \<lparr>d_from = from + j, d_to = from + j + length w,
                        d_kind = HardWord, d_source = w\<rparr>)"
  using assms
proof (induction ms arbitrary: st)
  case Nil
  then show ?case by simp
next
  case (Cons m ms)
  obtain j0 w0 where m: "m = (j0, w0)" by (cases m)
  from Cons.prems(1) obtain s1 where s1: "wordStep flag from st m = Inr s1"
    and r: "runLoop (wordStep flag from) s1 ms = Inr st'"
    by (auto split: sum.splits)
  from s1 m obtain b where b: "flag (fst st) w0 = Inr b" and f: "fst s1 = Suc (fst st)"
    and d1: "snd s1 = (if b then snd st @ [\<lparr>d_from = from + j0, d_to = from + j0 + length w0,
                                             d_kind = HardWord, d_source = w0\<rparr>] else snd st)"
    by (auto simp: wordStep_def Let_def split: sum.splits)
  from Cons.IH [OF r Cons.prems(2)] show ?case
  proof
    assume "d \<in> set (snd s1)"
    with d1 have "d \<in> set (snd st)
        \<or> (b \<and> d = \<lparr>d_from = from + j0, d_to = from + j0 + length w0,
                      d_kind = HardWord, d_source = w0\<rparr>)"
      by (auto split: if_splits)
    then show ?thesis
    proof
      assume "d \<in> set (snd st)"
      then show ?thesis ..
    next
      assume "b \<and> d = \<lparr>d_from = from + j0, d_to = from + j0 + length w0,
                      d_kind = HardWord, d_source = w0\<rparr>"
      with b m have "0 < length (m # ms) \<and> (m # ms) ! 0 = (j0, w0)
          \<and> flag (fst st + 0) w0 = Inr True
          \<and> d = \<lparr>d_from = from + j0, d_to = from + j0 + length w0,
                  d_kind = HardWord, d_source = w0\<rparr>"
        by simp
      then show ?thesis by blast
    qed
  next
    assume "\<exists>i j w. i < length ms \<and> ms ! i = (j, w) \<and> flag (fst s1 + i) w = Inr True
                \<and> d = \<lparr>d_from = from + j, d_to = from + j + length w,
                        d_kind = HardWord, d_source = w\<rparr>"
    then obtain i j w where "i < length ms" and "ms ! i = (j, w)"
      and "flag (fst s1 + i) w = Inr True"
      and "d = \<lparr>d_from = from + j, d_to = from + j + length w, d_kind = HardWord, d_source = w\<rparr>"
      by blast
    with f have "Suc i < length (m # ms) \<and> (m # ms) ! Suc i = (j, w)
        \<and> flag (fst st + Suc i) w = Inr True
        \<and> d = \<lparr>d_from = from + j, d_to = from + j + length w, d_kind = HardWord, d_source = w\<rparr>"
      by simp
    then show ?thesis by blast
  qed
qed

lemma wordDecos_mem:
  assumes "wordDecos flag from s = Inr ds" and "d \<in> set ds"
  shows "\<exists>ti j w. ti < length (execAll s 0) \<and> execAll s 0 ! ti = (j, w) \<and> flag ti w = Inr True
           \<and> d = \<lparr>d_from = from + j, d_to = from + j + length w, d_kind = HardWord, d_source = w\<rparr>"
proof -
  from assms(1) obtain st' where r: "runLoop (wordStep flag from) (0, []) (execAll s 0) = Inr st'"
    and "ds = snd st'"
    by (auto simp: wordDecos_def split: sum.splits)
  with assms(2) have "d \<in> set (snd st')" by simp
  from wordLoop_mem [OF r this] show ?thesis by simp
qed

lemma slice_inside:
  assumes "take (length s) (drop start text) = s"
    and "j + length w \<le> length s" and "take (length w) (drop j s) = w"
  shows "take (length w) (drop (start + j) text) = w"
proof -
  have "take (length w) (drop j (take (length s) (drop start text)))
          = take (length w) (drop (start + j) text)"
    using assms(2) by (simp add: drop_take min_def add.commute)
  with assms(1,3) show ?thesis by simp
qed

text \<open>What one round of the sentence loop adds to the decorations.\<close>

lemma sentenceStep_new:
  assumes "sentenceStep up cls flag sh text (pos + 1) st raw = Inr st'"
    and "d \<in> set (snd st')" and "d \<notin> set (snd st)"
  shows "trim raw \<noteq> [] \<and> located text pos d
           \<and> (case d_kind d of
                 Highlight c \<Rightarrow> d_source d = trim raw
                   \<and> cls (m_wordCount (analyzeSentence (up (d_source d)) (d_source d)))
                          (m_grade (analyzeSentence (up (d_source d)) (d_source d))) = Some c
               | HardWord \<Rightarrow> (\<exists>ti j. ti < length (execAll (trim raw) 0)
                   \<and> execAll (trim raw) 0 ! ti = (j, d_source d)
                   \<and> flag ti (d_source d) = Inr True))"
proof -
  let ?s = "trim raw"
  from assms have ne: "?s \<noteq> []"
    by (auto simp: sentenceStep_def Let_def split: if_splits)
  from assms ne obtain start where ix: "indexOf text ?s (fst st) = Some start"
    by (cases "indexOf text ?s (fst st)") (auto simp: sentenceStep_def Let_def)
  then have occ: "take (length ?s) (drop start text) = ?s" by (rule indexOf_occurs)
  let ?hl = "case cls (m_wordCount (analyzeSentence (up ?s) ?s)) (m_grade (analyzeSentence (up ?s) ?s)) of
               Some c \<Rightarrow> [\<lparr>d_from = pos + 1 + start, d_to = pos + 1 + start + length ?s,
                            d_kind = Highlight c, d_source = ?s\<rparr>]
             | None \<Rightarrow> []"
  from assms ne ix have "d \<in> set ?hl
      \<or> (\<exists>ws. wordDecos flag (pos + 1 + start) ?s = Inr ws \<and> d \<in> set ws)"
    by (auto simp: sentenceStep_def Let_def split: if_splits sum.splits)
  then show ?thesis
  proof
    assume h: "d \<in> set ?hl"
    show ?thesis
    proof (cases "cls (m_wordCount (analyzeSentence (up ?s) ?s)) (m_grade (analyzeSentence (up ?s) ?s))")
      case None
      with h show ?thesis by simp
    next
      case (Some c)
      with h have
        "d = \<lparr>d_from = pos + 1 + start, d_to = pos + 1 + start + length ?s,
               d_kind = Highlight c, d_source = ?s\<rparr>"
        by simp
      with Some occ ne show ?thesis by (simp add: located_def slice_def)
    qed
  next
    assume "\<exists>ws. wordDecos flag (pos + 1 + start) ?s = Inr ws \<and> d \<in> set ws"
    then obtain ti j w where t: "ti < length (execAll ?s 0)" "execAll ?s 0 ! ti = (j, w)"
        "flag ti w = Inr True"
      and d: "d = \<lparr>d_from = pos + 1 + start + j, d_to = pos + 1 + start + j + length w,
                    d_kind = HardWord, d_source = w\<rparr>"
      using wordDecos_mem by blast
    from t(1,2) have "(j, w) \<in> set (execAll ?s 0)" using nth_mem by metis
    then have "j + length w \<le> length ?s" and "take (length w) (drop j ?s) = w"
      using execAll_tokens by blast+
    with occ have "take (length w) (drop (start + j) text) = w" by (rule slice_inside)
    with d t ne show ?thesis by (auto simp: located_def slice_def)
  qed
qed

lemma block_roundtrip:
  assumes "blockDecorations up cls flag sh text pos = Inr ds" and "d \<in> set ds"
  shows "located text pos d \<and> analysed up cls flag text d"
proof -
  let ?step = "sentenceStep up cls flag sh text (pos + 1)"
  let ?Q = "\<lambda>d. located text pos d \<and> analysed up cls flag text d"
  from assms have ne: "text \<noteq> []"
    by (auto simp: blockDecorations_def split: if_splits)
  with assms(1) obtain st1 where r: "runLoop ?step (0, []) (splitIntoSentences text) = Inr st1"
    and ds: "ds = snd st1"
    by (auto simp: blockDecorations_def Let_def split: sum.splits)
  have keep: "\<forall>d \<in> set (snd s1). ?Q d"
    if raw: "raw \<in> set (splitIntoSentences text)" and inv: "\<forall>d \<in> set (snd s). ?Q d"
      and st: "?step s raw = Inr s1" for s raw s1
  proof
    fix d assume d: "d \<in> set (snd s1)"
    show "?Q d"
    proof (cases "d \<in> set (snd s)")
      case True
      with inv show ?thesis by blast
    next
      case False
      from sentenceStep_new [OF st d False]
      have n: "trim raw \<noteq> [] \<and> located text pos d
           \<and> (case d_kind d of
                 Highlight c \<Rightarrow> d_source d = trim raw
                   \<and> cls (m_wordCount (analyzeSentence (up (d_source d)) (d_source d)))
                          (m_grade (analyzeSentence (up (d_source d)) (d_source d))) = Some c
               | HardWord \<Rightarrow> (\<exists>ti j. ti < length (execAll (trim raw) 0)
                   \<and> execAll (trim raw) 0 ! ti = (j, d_source d)
                   \<and> flag ti (d_source d) = Inr True))" .
      with raw have f: "trim raw \<in> set (fragments text)" by (simp add: fragments_def)
      from n f have "analysed up cls flag text d"
        unfolding analysed_def by (cases "d_kind d") auto
      with n show ?thesis by simp
    qed
  qed
  have "\<forall>d \<in> set (snd st1). ?Q d"
    by (rule runLoop_invariant [OF r, where I = "\<lambda>st. \<forall>d \<in> set (snd st). ?Q d"])
      (simp, use keep in blast)
  with ds assms(2) show ?thesis by blast
qed

lemma nodes_roundtrip:
  assumes "runLoop (nodeStep up cls flag sh) [] doc = Inr ds" and "d \<in> set ds"
  shows "\<exists>n \<in> set doc. isBlock n \<and> located (textContent n) (nodePos n) d
           \<and> analysed up cls flag (textContent n) d"
proof -
  let ?Q = "\<lambda>d. \<exists>n \<in> set doc. isBlock n \<and> located (textContent n) (nodePos n) d
           \<and> analysed up cls flag (textContent n) d"
  have keep: "\<forall>d \<in> set s1. ?Q d"
    if n: "n \<in> set doc" and inv: "\<forall>d \<in> set s. ?Q d"
      and st: "nodeStep up cls flag sh s n = Inr s1" for s n s1
  proof (cases "isBlock n")
    case False
    with st inv show ?thesis by (simp add: nodeStep_def)
  next
    case True
    with st obtain bs where b: "blockDecorations up cls flag sh (textContent n) (nodePos n) = Inr bs"
      and s1: "s1 = s @ bs"
      by (auto simp: nodeStep_def split: sum.splits)
    show ?thesis
    proof
      fix d assume "d \<in> set s1"
      with s1 have "d \<in> set s \<or> d \<in> set bs" by simp
      then show "?Q d"
      proof
        assume "d \<in> set s"
        with inv show ?thesis by blast
      next
        assume "d \<in> set bs"
        from block_roundtrip [OF b this] n True show ?thesis by blast
      qed
    qed
  qed
  have "\<forall>d \<in> set ds. ?Q d"
    by (rule runLoop_invariant [OF assms(1), where I = "\<lambda>st. \<forall>d \<in> set st. ?Q d"])
      (simp, use keep in blast)
  with assms(2) show ?thesis by blast
qed

text \<open>
  The second listing's \<open>buildDecorations\<close> always has a result, since its token test never
  raises.
\<close>

lemma wordDecos_total:
  assumes "\<And>ti w e. flag ti w \<noteq> Inl e"
  shows "\<exists>ds. wordDecos flag from s = Inr ds"
proof -
  have "\<exists>s1. wordStep flag from st m = Inr s1" for st m
    using assms [of "fst st" "snd m"]
    by (cases "flag (fst st) (snd m)") (auto simp: wordStep_def Let_def)
  then have "\<exists>st1. runLoop (wordStep flag from) (0, []) (execAll s 0) = Inr st1"
    by (intro runLoop_total) blast
  then show ?thesis by (auto simp: wordDecos_def)
qed

lemma blockDecorations_total:
  assumes "\<And>ti w e. flag ti w \<noteq> Inl e"
  shows "\<exists>ds. blockDecorations up cls flag sh text pos = Inr ds"
proof -
  have "\<exists>s1. sentenceStep up cls flag sh text (pos + 1) st raw = Inr s1" for st raw
  proof (cases "indexOf text (trim raw) (fst st)")
    case None
    then show ?thesis by (simp add: sentenceStep_def Let_def)
  next
    case (Some i)
    obtain ws where "wordDecos flag (pos + 1 + i) (trim raw) = Inr ws"
      using wordDecos_total [where flag = flag, OF assms] by blast
    with Some show ?thesis by (simp add: sentenceStep_def Let_def)
  qed
  then have "\<exists>st1. runLoop (sentenceStep up cls flag sh text (pos + 1)) (0, [])
      (splitIntoSentences text) = Inr st1"
    by (intro runLoop_total) blast
  then show ?thesis by (auto simp: blockDecorations_def Let_def)
qed

lemma buildDecorations_v2_total: "\<exists>ds. buildDecorations_v2 own up cfg doc = Inr ds"
proof -
  let ?flag = "flagWord_v2 own (targetGrade cfg) (easySet cfg)"
  have nothrow: "\<And>ti w e. ?flag ti w \<noteq> Inl e" by (rule flagWord_v2_total)
  have "\<exists>s1. nodeStep up cls ?flag sh st n = Inr s1" for cls sh st n
    using blockDecorations_total [of ?flag up cls sh "textContent n" "nodePos n", OF nothrow]
    by (auto simp: nodeStep_def)
  then show ?thesis
    unfolding buildDecorations_v2_def by (intro runLoop_total) blast
qed

text \<open>
  C5. Every decoration that \<open>buildDecorations\<close> returns, in either listing, belongs to a
  block of the document, and its range, taken relative to the start of that block, cuts
  out of the block's text exactly the string it was decided on: for a sentence decoration
  the trimmed fragment given to \<open>analyzeSentence\<close> and \<open>classify\<close>, for a word decoration the
  token \<open>m[0]\<close> that was flagged.
\<close>

theorem annotation_offsets_roundtrip:
  "(buildDecorations own up cfg doc = Inr ds \<and> d \<in> set ds \<longrightarrow>
      (\<exists>n \<in> set doc. isBlock n \<and> located (textContent n) (nodePos n) d
         \<and> analysed up (\<lambda>w g. classify w g (targetGrade cfg))
              (flagWord own (targetGrade cfg) (easySet cfg)) (textContent n) d))
   \<and> (buildDecorations_v2 own up cfg doc = Inr ds \<and> d \<in> set ds \<longrightarrow>
      (\<exists>n \<in> set doc. isBlock n \<and> located (textContent n) (nodePos n) d
         \<and> analysed up (\<lambda>w g. classify_v2 w g (targetGrade cfg))
              (flagWord_v2 own (targetGrade cfg) (easySet cfg)) (textContent n) d))"
  unfolding buildDecorations_def buildDecorations_v2_def
  using nodes_roundtrip by blast

theorem annotation_offsets_roundtrip_witness:
  "buildDecorations exampleMap (\<lambda>s. True) exampleSettings exampleDoc
     = Inr [\<lparr>d_from = 9, d_to = 53, d_kind = Highlight Blue,
              d_source = ''a b c d e f g h i j k l m n extraordinarily.''\<rparr>,
            \<lparr>d_from = 37, d_to = 52, d_kind = HardWord, d_source = ''extraordinarily''\<rparr>]
   \<and> (\<exists>n \<in> set exampleDoc. isBlock n
        \<and> located (textContent n) (nodePos n)
             \<lparr>d_from = 9, d_to = 53, d_kind = Highlight Blue,
                d_source = ''a b c d e f g h i j k l m n extraordinarily.''\<rparr>)
   \<and> buildDecorations_v2 exampleMap (\<lambda>s. True) exampleSettings exampleDoc
     = Inr [\<lparr>d_from = 37, d_to = 52, d_kind = HardWord, d_source = ''extraordinarily''\<rparr>]
   \<and> (\<exists>n \<in> set exampleDoc. isBlock n
        \<and> located (textContent n) (nodePos n)
             \<lparr>d_from = 37, d_to = 52, d_kind = HardWord, d_source = ''extraordinarily''\<rparr>)
   \<and> slice ''Go. a b c d e f g h i j k l m n extraordinarily.'' (9 - 5) (53 - 5)
       = ''a b c d e f g h i j k l m n extraordinarily.''
   \<and> slice ''Go. a b c d e f g h i j k l m n extraordinarily.'' (37 - 5) (52 - 5)
       = ''extraordinarily''"
proof -
  have m1: "buildDecorations exampleMap (\<lambda>s. True) exampleSettings exampleDoc
     = Inr [\<lparr>d_from = 9, d_to = 53, d_kind = Highlight Blue,
              d_source = ''a b c d e f g h i j k l m n extraordinarily.''\<rparr>,
            \<lparr>d_from = 37, d_to = 52, d_kind = HardWord, d_source = ''extraordinarily''\<rparr>]"
    by code_simp
  have m2: "buildDecorations_v2 exampleMap (\<lambda>s. True) exampleSettings exampleDoc
     = Inr [\<lparr>d_from = 37, d_to = 52, d_kind = HardWord, d_source = ''extraordinarily''\<rparr>]"
    by code_simp
  have s1: "slice ''Go. a b c d e f g h i j k l m n extraordinarily.'' (9 - 5) (53 - 5)
       = ''a b c d e f g h i j k l m n extraordinarily.''"
    by code_simp
  have s2: "slice ''Go. a b c d e f g h i j k l m n extraordinarily.'' (37 - 5) (52 - 5)
       = ''extraordinarily''"
    by code_simp
  have e1: "\<lparr>d_from = 9, d_to = 53, d_kind = Highlight Blue,
              d_source = ''a b c d e f g h i j k l m n extraordinarily.''\<rparr>
      \<in> set [\<lparr>d_from = 9, d_to = 53, d_kind = Highlight Blue,
              d_source = ''a b c d e f g h i j k l m n extraordinarily.''\<rparr>,
            \<lparr>d_from = 37, d_to = 52, d_kind = HardWord, d_source = ''extraordinarily''\<rparr>]"
    by simp
  have e2: "\<lparr>d_from = 37, d_to = 52, d_kind = HardWord, d_source = ''extraordinarily''\<rparr>
      \<in> set [\<lparr>d_from = 37, d_to = 52, d_kind = HardWord, d_source = ''extraordinarily''\<rparr>]"
    by simp
  from m1 m2 s1 s2 e1 e2 show ?thesis
    using annotation_offsets_roundtrip
        [of exampleMap "\<lambda>s. True" exampleSettings exampleDoc
          "[\<lparr>d_from = 9, d_to = 53, d_kind = Highlight Blue,
              d_source = ''a b c d e f g h i j k l m n extraordinarily.''\<rparr>,
            \<lparr>d_from = 37, d_to = 52, d_kind = HardWord, d_source = ''extraordinarily''\<rparr>]"
          "\<lparr>d_from = 9, d_to = 53, d_kind = Highlight Blue,
               d_source = ''a b c d e f g h i j k l m n extraordinarily.''\<rparr>"]
      annotation_offsets_roundtrip
        [of exampleMap "\<lambda>s. True" exampleSettings exampleDoc
          "[\<lparr>d_from = 37, d_to = 52, d_kind = HardWord, d_source = ''extraordinarily''\<rparr>]"
          "\<lparr>d_from = 37, d_to = 52, d_kind = HardWord, d_source = ''extraordinarily''\<rparr>"]
    by blast
qed

end
